theory Spec2Isabelle
  imports Main
begin

text \<open>
  A model of \<open>GUI/centrifuge.py\<close>, the desktop client of a networked centrifuge: the
  \<open>HotplateClient\<close> that owns the TCP connection, and the \<open>CentrifugeGUI\<close> controller that
  parses the device's status lines, keeps a bounded history and runs the slider workflow
  with its five-second revert timer.  Methods are functions on records of the objects'
  fields; exceptions are values; the toolkit and the network appear only through the
  state they keep for the program (pending timers, dialogs shown, bytes sent) and
  through the events they deliver.
\<close>

section \<open>Python strings and builtins used by the controller\<close>

text \<open>
  A Python \<open>str\<close> is modelled as a \<open>string\<close> whose characters are the code points
  below 256.  \<open>is_space\<close> lists the code points in that range for which
  \<open>str.isspace\<close> holds; \<open>str.strip()\<close> and \<open>str.split()\<close> use exactly this set.
\<close>

definition is_space :: "char \<Rightarrow> bool" where
  "is_space c = (c \<in> set [CHR 0x09, CHR 0x0A, CHR 0x0B, CHR 0x0C, CHR 0x0D,
                          CHR 0x1C, CHR 0x1D, CHR 0x1E, CHR 0x1F, CHR 0x20,
                          CHR 0x85, CHR 0xA0])"

definition py_lstrip :: "string \<Rightarrow> string" where
  "py_lstrip s = dropWhile is_space s"

definition py_rstrip :: "string \<Rightarrow> string" where
  "py_rstrip s = rev (dropWhile is_space (rev s))"

definition py_strip :: "string \<Rightarrow> string" where
  \<comment> \<open>\<open>s.strip()\<close>\<close>
  "py_strip s = py_rstrip (py_lstrip s)"

fun split_ws :: "string \<Rightarrow> string \<Rightarrow> string list" where
  "split_ws cur [] = (if cur = [] then [] else [cur])"
| "split_ws cur (c # cs) =
     (if is_space c then (if cur = [] then split_ws [] cs else cur # split_ws [] cs)
      else split_ws (cur @ [c]) cs)"

definition py_split :: "string \<Rightarrow> string list" where
  \<comment> \<open>\<open>s.split()\<close>: the maximal runs of non-whitespace characters\<close>
  "py_split s = split_ws [] s"

fun split_on :: "char \<Rightarrow> string \<Rightarrow> string \<Rightarrow> string list" where
  "split_on sep cur [] = [cur]"
| "split_on sep cur (c # cs) =
     (if c = sep then cur # split_on sep [] cs else split_on sep (cur @ [c]) cs)"

definition py_split_sep :: "char \<Rightarrow> string \<Rightarrow> string list" where
  \<comment> \<open>\<open>s.split(sep)\<close> for a one-character separator\<close>
  "py_split_sep sep s = split_on sep [] s"

definition py_split1 :: "char \<Rightarrow> string \<Rightarrow> string list" where
  \<comment> \<open>\<open>s.split(sep, 1)\<close>: split at the first separator only\<close>
  "py_split1 sep s =
     (if sep \<in> set s
      then [takeWhile (\<lambda>c. c \<noteq> sep) s, tl (dropWhile (\<lambda>c. c \<noteq> sep) s)]
      else [s])"

definition startswith :: "string \<Rightarrow> string \<Rightarrow> bool" where
  "startswith s p = (take (length p) s = p)"

definition is_digit :: "char \<Rightarrow> bool" where
  "is_digit c = (c \<in> set ''0123456789'')"

definition digit_val :: "char \<Rightarrow> nat" where
  "digit_val c = of_char c - 48"

fun scan_digits :: "bool \<Rightarrow> nat \<Rightarrow> string \<Rightarrow> nat option" where
  "scan_digits prev acc [] = (if prev then Some acc else None)"
| "scan_digits prev acc (c # cs) =
     (if is_digit c then scan_digits True (acc * 10 + digit_val c) cs
      else if c = CHR ''_'' \<and> prev then scan_digits False acc cs
      else None)"

definition py_int :: "string \<Rightarrow> int option" where
  \<comment> \<open>\<open>int(s)\<close> in base 10; \<open>None\<close> stands for \<open>ValueError\<close>.  Surrounding whitespace is
      dropped, one sign is allowed, digits may be grouped by single underscores.
      The interpreter's configurable cap on the number of digits is not modelled.\<close>
  "py_int s =
     (case py_strip s of
        [] \<Rightarrow> None
      | c # r \<Rightarrow>
          if c = CHR ''-'' then map_option (\<lambda>n. - int n) (scan_digits False 0 r)
          else if c = CHR ''+'' then map_option int (scan_digits False 0 r)
          else map_option int (scan_digits False 0 (c # r)))"

definition digit_char :: "nat \<Rightarrow> char" where
  "digit_char d = ''0123456789'' ! d"

fun nat_str :: "nat \<Rightarrow> string" where
  "nat_str n =
     (if n < 10 then [digit_char n] else nat_str (n div 10) @ [digit_char (n mod 10)])"

declare nat_str.simps [simp del]

definition py_str :: "int \<Rightarrow> string" where
  \<comment> \<open>\<open>str(i)\<close>, also what \<open>f"{i}"\<close> produces\<close>
  "py_str i = (if i < 0 then CHR ''-'' # nat_str (nat (- i)) else nat_str (nat i))"

text \<open>
  Python's \<open>float\<close> type and the builtins working on it are not code of this repository.
  They are a parameter of the model: \<open>'f\<close> is the type of floats, and an environment
  record supplies \<open>float(str)\<close> (\<open>None\<close> for \<open>ValueError\<close>), \<open>float(int)\<close>,
  \<open>int(round(x))\<close> (\<open>None\<close> when it raises, as it does on NaN and the infinities) and
  the fixed-point formatting \<open>f"{x:.nf}"\<close>.  The flag \<open>cmd_on_set\<close> says whether the
  toolkit invokes the slider's command callback when the program writes the slider's
  variable.
\<close>

record 'f env =
  float_of_str :: "string \<Rightarrow> 'f option"
  float_of_int :: "int \<Rightarrow> 'f"
  int_round :: "'f \<Rightarrow> int option"
  fmt_fixed :: "nat \<Rightarrow> 'f \<Rightarrow> string"
  cmd_on_set :: bool

datatype exn = ValueError | IndexError | TypeError | RoundError

datatype 'f pyval = PNone | PStr string | PFloat 'f | PInt int

definition to_float :: "'f env \<Rightarrow> 'f pyval \<Rightarrow> exn + 'f" where
  \<comment> \<open>\<open>float(value)\<close>\<close>
  "to_float E v =
     (case v of
        PNone \<Rightarrow> Inl TypeError
      | PStr s \<Rightarrow> (case float_of_str E s of None \<Rightarrow> Inl ValueError | Some x \<Rightarrow> Inr x)
      | PFloat x \<Rightarrow> Inr x
      | PInt i \<Rightarrow> Inr (float_of_int E i))"

definition py_int_round :: "'f env \<Rightarrow> 'f pyval \<Rightarrow> exn + int" where
  \<comment> \<open>\<open>int(round(value))\<close>; rounding an \<open>int\<close> returns it\<close>
  "py_int_round E v =
     (case v of
        PInt i \<Rightarrow> Inr i
      | PFloat x \<Rightarrow> (case int_round E x of None \<Rightarrow> Inl RoundError | Some n \<Rightarrow> Inr n)
      | _ \<Rightarrow> Inl TypeError)"

section \<open>Device link: \<open>HotplateClient\<close>\<close>

datatype sock_state = SockOpen | SockClosed

text \<open>
  \<open>sock\<close> and \<open>sock_file\<close> are \<open>None\<close> until the reader thread has connected.  \<open>sent\<close> is
  the sequence of messages written to the peer through this client's socket.
\<close>

record client =
  host :: string
  port :: int
  stop_event :: bool
  sock :: "sock_state option"
  sock_file :: "sock_state option"
  sent :: "string list"

definition new_client :: "string \<Rightarrow> int \<Rightarrow> client" where
  \<comment> \<open>\<open>HotplateClient.__init__\<close>\<close>
  "new_client h p =
     \<lparr>host = h, port = p, stop_event = False, sock = None, sock_file = None, sent = []\<rparr>"

datatype write_result = WriteOk | WriteErr string

definition sendall :: "write_result \<Rightarrow> string \<Rightarrow> client \<Rightarrow> string + client" where
  \<comment> \<open>\<open>self.sock.sendall(msg.encode("utf-8"))\<close>: the operating system decides whether a
      write on an open socket succeeds (\<open>write_result\<close>); a closed socket object always
      raises \<open>OSError\<close>.  \<open>Inl\<close> carries the text of the exception.\<close>
  "sendall wr msg c =
     (case sock c of
        Some SockOpen \<Rightarrow>
          (case wr of WriteOk \<Rightarrow> Inr (c\<lparr>sent := sent c @ [msg]\<rparr>) | WriteErr e \<Rightarrow> Inl e)
      | _ \<Rightarrow> Inl ''[Errno 9] Bad file descriptor'')"

definition send_setpoint ::
  "int \<Rightarrow> write_result \<Rightarrow> client \<times> string list \<Rightarrow> client \<times> string list" where
  \<comment> \<open>\<open>HotplateClient.send_setpoint\<close>; the second component is the status queue\<close>
  "send_setpoint v wr cq =
     (case cq of (c, q) \<Rightarrow>
        if sock c = None then (c, q @ [''Not connected.''])
        else
          (case sendall wr (py_str v @ [CHR 0x0A]) c of
             Inl e \<Rightarrow> (c, q @ [''Send error: '' @ e])
           | Inr c' \<Rightarrow> (c', q @ [''Sent setpoint: '' @ py_str v])))"

definition close :: "client \<Rightarrow> client" where
  \<comment> \<open>\<open>HotplateClient.close\<close>: the socket objects are closed, the fields keep them\<close>
  "close c =
     c\<lparr>stop_event := True,
       sock_file := map_option (\<lambda>_. SockClosed) (sock_file c),
       sock := map_option (\<lambda>_. SockClosed) (sock c)\<rparr>"

definition run_started :: "client \<times> string list \<Rightarrow> client \<times> string list" where
  \<comment> \<open>\<open>HotplateClient.run\<close>, its first statement\<close>
  "run_started cq =
     (case cq of (c, q) \<Rightarrow>
        (c, q @ [''Connecting to '' @ host c @ '':'' @ py_str (port c) @ '' ...'']))"

definition run_connected :: "client \<times> string list \<Rightarrow> client \<times> string list" where
  \<comment> \<open>\<open>HotplateClient.run\<close> from \<open>create_connection\<close> to the read loop, when the connection
      is made\<close>
  "run_connected cq =
     (case cq of (c, q) \<Rightarrow>
        (c\<lparr>sock := Some SockOpen, sock_file := Some SockOpen\<rparr>, q @ [''Connected.'']))"

definition run_finished :: "string option \<Rightarrow> client \<times> string list \<Rightarrow> client \<times> string list" where
  \<comment> \<open>the \<open>except\<close> and \<open>finally\<close> blocks of \<open>HotplateClient.run\<close>, entered when the
      connection attempt fails or the read loop ends; the argument is the text of the
      exception, if one was raised\<close>
  "run_finished err cq =
     (case cq of (c, q) \<Rightarrow>
        (close c,
         q @ (case err of None \<Rightarrow> [] | Some e \<Rightarrow> [''Connection error: '' @ e])
           @ [''Disconnected.'']))"

section \<open>Interaction controller: \<open>CentrifugeGUI\<close>\<close>

datatype btn_state = Normal | Disabled

datatype dialog =
  ShowInfo string string | ShowError string string | ShowWarning string string

text \<open>
  The fields of \<open>CentrifugeGUI\<close>, the Tk variables and the button states it owns, and the
  parts of the toolkit its methods act on: the message boxes shown (\<open>dialogs\<close>), the
  console (\<open>console\<close>), the pending \<open>after\<close> callbacks that revert the slider
  (\<open>timers\<close>, each an identifier with the time at which it is due), the next identifier
  \<open>after\<close> hands out, and the toolkit's clock in milliseconds.  \<open>dropped\<close> holds the
  clients the controller has closed and let go of: their reader threads may still run
  and still write to the status queue they share with the controller.
\<close>

record 'f gui =
  client :: "client option"
  status_queue :: "string list"
  current_sp_value :: "'f pyval"
  slider_revert_after_id :: "nat option"
  user_adjusting_slider :: bool
  ignore_slider_change :: bool
  temp_history :: "'f list"
  sp_history :: "'f list"
  sample_indices :: "int list"
  sample_count :: int
  max_points :: nat
  host_var :: string
  port_var :: string
  temp_var :: string
  sp_var :: string
  state_var :: string
  sp_slider_label_var :: string
  sp_slider_var :: int
  status_var :: string
  connect_button :: btn_state
  disconnect_button :: btn_state
  set_button :: btn_state
  dialogs :: "dialog list"
  console :: "string list"
  timers :: "(nat \<times> nat) list"
  next_after_id :: nat
  clock :: nat
  dropped :: "client list"

definition update_slider_label :: "'f env \<Rightarrow> 'f pyval \<Rightarrow> 'f gui \<Rightarrow> 'f gui" where
  "update_slider_label E v g =
     (case to_float E v of
        Inl _ \<Rightarrow> g\<lparr>sp_slider_label_var := ''SP to set: -- RPM''\<rparr>
      | Inr x \<Rightarrow> g\<lparr>sp_slider_label_var := ''SP to set: '' @ fmt_fixed E 1 x @ '' RPM''\<rparr>)"

definition init_gui :: "'f env \<Rightarrow> 'f gui" where
  \<comment> \<open>\<open>CentrifugeGUI.__init__\<close> with \<open>_build_widgets\<close>\<close>
  "init_gui E =
     update_slider_label E (PInt 25)
       \<lparr>client = None, status_queue = [], current_sp_value = PNone,
        slider_revert_after_id = None, user_adjusting_slider = False,
        ignore_slider_change = False, temp_history = [], sp_history = [],
        sample_indices = [], sample_count = 0, max_points = 300,
        host_var = ''192.168.1.49'', port_var = py_str 5000,
        temp_var = ''--.- RPM'', sp_var = ''--.- RPM'', state_var = ''--'',
        sp_slider_label_var = ''SP to set: -- RPM'', sp_slider_var = 25,
        status_var = ''Not connected.'',
        connect_button = Normal, disconnect_button = Disabled, set_button = Disabled,
        dialogs = [], console = [], timers = [], next_after_id = 0, clock = 0,
        dropped = []\<rparr>"

definition tk_after :: "nat \<Rightarrow> 'f gui \<Rightarrow> nat \<times> 'f gui" where
  \<comment> \<open>\<open>master.after(ms, revert_slider_to_current_sp)\<close>\<close>
  "tk_after ms g =
     (next_after_id g,
      g\<lparr>timers := timers g @ [(next_after_id g, clock g + ms)],
        next_after_id := next_after_id g + 1\<rparr>)"

definition tk_after_cancel :: "nat \<Rightarrow> 'f gui \<Rightarrow> 'f gui" where
  \<comment> \<open>\<open>master.after_cancel(id)\<close>: no effect when the callback has fired or was cancelled\<close>
  "tk_after_cancel i g = g\<lparr>timers := filter (\<lambda>t. fst t \<noteq> i) (timers g)\<rparr>"

definition on_connect :: "'f gui \<Rightarrow> 'f gui" where
  "on_connect g =
     (if client g \<noteq> None
      then g\<lparr>dialogs := dialogs g @ [ShowInfo ''Already connected'' ''A connection is already active.'']\<rparr>
      else
        let h = py_strip (host_var g); port_str = py_strip (port_var g) in
        case py_int port_str of
          None \<Rightarrow> g\<lparr>dialogs := dialogs g @ [ShowError ''Invalid port'' ''Port must be an integer.'']\<rparr>
        | Some p \<Rightarrow>
            g\<lparr>client := Some (new_client h p), connect_button := Disabled,
              disconnect_button := Normal, set_button := Normal\<rparr>)"

definition on_disconnect :: "'f gui \<Rightarrow> 'f gui" where
  \<comment> \<open>the closed client is no longer referred to by the controller; its thread lives on\<close>
  "on_disconnect g =
     (let g1 = (case client g of
                  None \<Rightarrow> g
                | Some c \<Rightarrow> g\<lparr>dropped := dropped g @ [close c], client := None\<rparr>) in
      g1\<lparr>connect_button := Normal, disconnect_button := Disabled, set_button := Disabled,
         status_var := ''Disconnected.''\<rparr>)"

definition on_slider_changed :: "'f env \<Rightarrow> 'f pyval \<Rightarrow> 'f gui \<Rightarrow> 'f gui" where
  "on_slider_changed E value_str g =
     (if ignore_slider_change g then g
      else
        let g1 = update_slider_label E value_str g;
            g2 = g1\<lparr>user_adjusting_slider := True\<rparr>;
            g3 = (case slider_revert_after_id g2 of
                    None \<Rightarrow> g2
                  | Some i \<Rightarrow> tk_after_cancel i g2)
        in case tk_after 5000 g3 of (i, g4) \<Rightarrow> g4\<lparr>slider_revert_after_id := Some i\<rparr>)"

definition slider_set :: "'f env \<Rightarrow> int \<Rightarrow> 'f gui \<Rightarrow> 'f gui" where
  \<comment> \<open>\<open>self.sp_slider_var.set(n)\<close> from the program: the variable is written and, when
      the toolkit does so, the command callback runs with the new value as text\<close>
  "slider_set E n g =
     (let g1 = g\<lparr>sp_slider_var := n\<rparr> in
      if cmd_on_set E then on_slider_changed E (PStr (py_str n)) g1 else g1)"

definition user_move :: "'f env \<Rightarrow> int \<Rightarrow> string \<Rightarrow> 'f gui \<Rightarrow> 'f gui" where
  \<comment> \<open>the user drags the slider: the toolkit writes the variable (\<open>n\<close> is what
      \<open>sp_slider_var.get()\<close> returns from then on) and calls the command callback with
      the value as text\<close>
  "user_move E n value_str g = on_slider_changed E (PStr value_str) (g\<lparr>sp_slider_var := n\<rparr>)"

definition revert_slider_to_current_sp :: "'f env \<Rightarrow> 'f gui \<Rightarrow> 'f gui" where
  \<comment> \<open>an exception of \<open>int(round(...))\<close> leaves the method at that point; the toolkit
      reports it and carries on with the state as it is then\<close>
  "revert_slider_to_current_sp E g =
     (let g1 = g\<lparr>slider_revert_after_id := None, user_adjusting_slider := False\<rparr> in
      if current_sp_value g1 = PNone then g1
      else
        let g2 = g1\<lparr>ignore_slider_change := True\<rparr> in
        case py_int_round E (current_sp_value g2) of
          Inl _ \<Rightarrow> g2
        | Inr n \<Rightarrow>
            update_slider_label E (current_sp_value g2)
              ((slider_set E n g2)\<lparr>ignore_slider_change := False\<rparr>))"

definition timer_fires :: "'f env \<Rightarrow> nat \<Rightarrow> 'f gui \<Rightarrow> 'f gui" where
  \<comment> \<open>the toolkit runs the pending callback \<open>i\<close> once it is due: it leaves the table of
      pending callbacks and \<open>revert_slider_to_current_sp\<close> is called\<close>
  "timer_fires E i g =
     (if list_ex (\<lambda>t. fst t = i \<and> snd t \<le> clock g) (timers g)
      then revert_slider_to_current_sp E (tk_after_cancel i g)
      else g)"

definition on_set_sp :: "'f env \<Rightarrow> write_result \<Rightarrow> 'f gui \<Rightarrow> 'f gui" where
  \<comment> \<open>\<open>sp_slider_var\<close> is an \<open>IntVar\<close>, so \<open>get()\<close> returns an \<open>int\<close>\<close>
  "on_set_sp E wr g =
     (case client g of
        None \<Rightarrow> g\<lparr>dialogs := dialogs g @ [ShowWarning ''Not connected'' ''Connect to the centrifuge first.'']\<rparr>
      | Some c \<Rightarrow>
          (case py_int_round E (PInt (sp_slider_var g)) of
             Inl _ \<Rightarrow> g
           | Inr v \<Rightarrow>
               (case send_setpoint v wr (c, status_queue g) of (c', q') \<Rightarrow>
                  let g1 = g\<lparr>client := Some c', status_queue := q'\<rparr>;
                      g2 = g1\<lparr>current_sp_value := PInt v\<rparr>;
                      g3 = g2\<lparr>sp_var := fmt_fixed E 1 (float_of_int E v) @ '' C''\<rparr>;
                      g4 = update_slider_label E (PInt v) g3;
                      g5 = g4\<lparr>user_adjusting_slider := False\<rparr>
                  in case slider_revert_after_id g5 of
                       None \<Rightarrow> g5
                     | Some i \<Rightarrow> (tk_after_cancel i g5)\<lparr>slider_revert_after_id := None\<rparr>)))"

subsection \<open>Handling one status line\<close>

record 'f reading =
  rpm :: 'f
  setpoint :: 'f
  stateCode :: "int option"
  stateLabel :: string

text \<open>
  How \<open>_handle_device_line\<close> leaves: by one of its two early \<open>return\<close>s, by an exception
  that the enclosing \<open>except Exception: pass\<close> swallows, or at the end of the \<open>try\<close> block;
  then the values of the locals \<open>temp_val\<close>, \<open>sp_val\<close>, \<open>state_int\<close> and \<open>state_str\<close> are
  the status reading of the line.
\<close>

datatype 'f outcome = Ignored | Raised exn | Parsed "'f reading"

definition append_log :: "string \<Rightarrow> 'f gui \<Rightarrow> 'f gui" where
  \<comment> \<open>\<open>_append_log\<close>: \<open>print(text, end="")\<close>\<close>
  "append_log text g = g\<lparr>console := console g @ [text]\<rparr>"

definition second_float :: "'f env \<Rightarrow> string \<Rightarrow> exn + 'f" where
  \<comment> \<open>\<open>float(part.split()[1])\<close>\<close>
  "second_float E part =
     (case py_split part of
        _ # t # _ \<Rightarrow> (case float_of_str E t of None \<Rightarrow> Inl ValueError | Some x \<Rightarrow> Inr x)
      | _ \<Rightarrow> Inl IndexError)"

definition sync_slider :: "'f env \<Rightarrow> 'f gui \<Rightarrow> 'f gui \<times> exn option" where
  \<comment> \<open>the block that forces slider and label to the device's setpoint\<close>
  "sync_slider E g =
     (if \<not> user_adjusting_slider g \<and> current_sp_value g \<noteq> PNone then
        let g1 = g\<lparr>ignore_slider_change := True\<rparr> in
        case py_int_round E (current_sp_value g1) of
          Inl e \<Rightarrow> (g1, Some e)
        | Inr n \<Rightarrow>
            (update_slider_label E (current_sp_value g1)
               ((slider_set E n g1)\<lparr>ignore_slider_change := False\<rparr>), None)
      else (g, None))"

definition state_label :: "string \<Rightarrow> string" where
  \<comment> \<open>\<open>state_tokens[1].strip() if len(state_tokens) > 1 else state_part\<close>\<close>
  "state_label state_part =
     (case py_split1 CHR '':'' state_part of
        _ # r # _ \<Rightarrow> py_strip r
      | _ \<Rightarrow> state_part)"

definition state_code :: "string \<Rightarrow> exn + int option" where
  \<comment> \<open>\<open>int(state_str.split()[0])\<close> inside \<open>try ... except ValueError: state_int = None\<close>:
      \<open>IndexError\<close> is not caught there\<close>
  "state_code state_str =
     (case py_split state_str of
        [] \<Rightarrow> Inl IndexError
      | t # _ \<Rightarrow> Inr (py_int t))"

definition gate_set_button :: "int option \<Rightarrow> 'f gui \<Rightarrow> 'f gui" where
  "gate_set_button state_int g =
     (if client g \<noteq> None then
        (if state_int = Some 1 then g\<lparr>set_button := Disabled\<rparr>
         else if state_int = Some 0 then g\<lparr>set_button := Normal\<rparr>
         else g)
      else g)"

definition pop0 :: "'a list \<Rightarrow> exn + 'a list" where
  \<comment> \<open>\<open>xs.pop(0)\<close>, which raises on an empty list\<close>
  "pop0 xs = (case xs of [] \<Rightarrow> Inl IndexError | _ # r \<Rightarrow> Inr r)"

definition record_sample :: "'f \<Rightarrow> 'f \<Rightarrow> 'f gui \<Rightarrow> 'f gui \<times> exn option" where
  \<comment> \<open>the update of the three history lists\<close>
  "record_sample temp_val sp_val g =
     (let g1 = g\<lparr>sample_count := sample_count g + 1\<rparr>;
          g2 = g1\<lparr>sample_indices := sample_indices g1 @ [sample_count g1]\<rparr>;
          g3 = g2\<lparr>temp_history := temp_history g2 @ [temp_val]\<rparr>;
          g4 = g3\<lparr>sp_history := sp_history g3 @ [sp_val]\<rparr>
      in
        if length (sample_indices g4) > max_points g4 then
          (case pop0 (sample_indices g4) of
             Inl e \<Rightarrow> (g4, Some e)
           | Inr si \<Rightarrow>
               let g5 = g4\<lparr>sample_indices := si\<rparr> in
               (case pop0 (temp_history g5) of
                  Inl e \<Rightarrow> (g5, Some e)
                | Inr th \<Rightarrow>
                    let g6 = g5\<lparr>temp_history := th\<rparr> in
                    (case pop0 (sp_history g6) of
                       Inl e \<Rightarrow> (g6, Some e)
                     | Inr sh \<Rightarrow> (g6\<lparr>sp_history := sh\<rparr>, None))))
        else (g4, None))"

definition handle_parts :: "'f env \<Rightarrow> string list \<Rightarrow> 'f gui \<Rightarrow> 'f gui \<times> 'f outcome" where
  \<comment> \<open>the \<open>try\<close> block from \<open>temp_part = parts[0]\<close> on, entered with at least three
      parts; \<open>_update_plot\<close> only redraws the chart from the history lists\<close>
  "handle_parts E parts g =
     (case second_float E (parts ! 0) of
        Inl e \<Rightarrow> (g, Raised e)
      | Inr temp_val \<Rightarrow>
          let g1 = g\<lparr>temp_var := fmt_fixed E 2 temp_val @ '' ''\<rparr> in
          (case second_float E (parts ! 1) of
             Inl e \<Rightarrow> (g1, Raised e)
           | Inr sp_val \<Rightarrow>
               let g2 = g1\<lparr>sp_var := fmt_fixed E 1 sp_val @ '' ''\<rparr>;
                   g3 = g2\<lparr>current_sp_value := PFloat sp_val\<rparr>
               in
               (case sync_slider E g3 of
                  (g4, Some e) \<Rightarrow> (g4, Raised e)
                | (g4, None) \<Rightarrow>
                    let state_str = state_label (parts ! 2);
                        g5 = g4\<lparr>state_var := state_str\<rparr>
                    in
                    (case state_code state_str of
                       Inl e \<Rightarrow> (g5, Raised e)
                     | Inr state_int \<Rightarrow>
                         (case record_sample temp_val sp_val (gate_set_button state_int g5) of
                            (g6, Some e) \<Rightarrow> (g6, Raised e)
                          | (g6, None) \<Rightarrow>
                              (g6, Parsed \<lparr>rpm = temp_val, setpoint = sp_val,
                                           stateCode = state_int, stateLabel = state_str\<rparr>))))))"

definition handle_full :: "'f env \<Rightarrow> string \<Rightarrow> 'f gui \<Rightarrow> 'f gui \<times> 'f outcome" where
  \<comment> \<open>\<open>_handle_device_line\<close> together with the way it leaves\<close>
  "handle_full E line0 g0 =
     (let g = append_log (line0 @ [CHR 0x0A]) g0;
          line = py_strip line0
      in
        if \<not> startswith line ''RPM:'' then (g, Ignored)
        else
          let parts = map py_strip (py_split_sep CHR ''|'' line) in
          if length parts < 3 then (g, Ignored)
          else handle_parts E parts g)"

definition handle_device_line :: "'f env \<Rightarrow> string \<Rightarrow> 'f gui \<Rightarrow> 'f gui" where
  "handle_device_line E line g = fst (handle_full E line g)"

definition line_outcome :: "'f env \<Rightarrow> string \<Rightarrow> 'f gui \<Rightarrow> 'f outcome" where
  "line_outcome E line g = snd (handle_full E line g)"

subsection \<open>Events\<close>

text \<open>
  The controller is single-threaded: one callback runs at a time.  An event is one
  callback of the toolkit, one step of the reader thread on the client object the
  controller holds or on one it has dropped (given by its position in \<open>dropped\<close>), or
  the passing of time.  \<open>DeviceLine l\<close> is one call of
  \<open>_handle_device_line\<close>, as \<open>_poll_queues\<close> makes for every line it takes from the
  queue of inbound lines; the transfer of status messages to the status bar by
  \<open>_poll_queues\<close> is left out.
\<close>

datatype event =
    Connect
  | Disconnect
  | UserMove int string
  | TimerFires nat
  | SetSP write_result
  | DeviceLine string
  | ThreadStarted
  | ThreadConnected
  | ThreadFinished "string option"
  | DroppedStarted nat
  | DroppedConnected nat
  | DroppedFinished nat "string option"
  | Advance nat

definition on_thread ::
  "(client \<times> string list \<Rightarrow> client \<times> string list) \<Rightarrow> 'f gui \<Rightarrow> 'f gui" where
  \<comment> \<open>a step of the reader thread of the client the controller holds\<close>
  "on_thread f g =
     (case client g of
        None \<Rightarrow> g
      | Some c \<Rightarrow>
          (case f (c, status_queue g) of
             (c', q') \<Rightarrow> g\<lparr>client := Some c', status_queue := q'\<rparr>))"

definition on_dropped_thread ::
  "(client \<times> string list \<Rightarrow> client \<times> string list) \<Rightarrow> nat \<Rightarrow> 'f gui \<Rightarrow> 'f gui" where
  \<comment> \<open>a step of the reader thread of a dropped client: it still has the status queue\<close>
  "on_dropped_thread f i g =
     (if i < length (dropped g) then
        (case f (dropped g ! i, status_queue g) of
           (c', q') \<Rightarrow> g\<lparr>dropped := (dropped g)[i := c'], status_queue := q'\<rparr>)
      else g)"

fun step :: "'f env \<Rightarrow> event \<Rightarrow> 'f gui \<Rightarrow> 'f gui" where
  "step E Connect g = on_connect g"
| "step E Disconnect g = on_disconnect g"
| "step E (UserMove n s) g = user_move E n s g"
| "step E (TimerFires i) g = timer_fires E i g"
| "step E (SetSP wr) g = on_set_sp E wr g"
| "step E (DeviceLine l) g = handle_device_line E l g"
| "step E ThreadStarted g = on_thread run_started g"
| "step E ThreadConnected g = on_thread run_connected g"
| "step E (ThreadFinished err) g = on_thread (run_finished err) g"
| "step E (DroppedStarted i) g = on_dropped_thread run_started i g"
| "step E (DroppedConnected i) g = on_dropped_thread run_connected i g"
| "step E (DroppedFinished i err) g = on_dropped_thread (run_finished err) i g"
| "step E (Advance dt) g = g\<lparr>clock := clock g + dt\<rparr>"

definition run_events :: "'f env \<Rightarrow> event list \<Rightarrow> 'f gui \<Rightarrow> 'f gui" where
  "run_events E evs g = foldl (\<lambda>s e. step E e s) g evs"

section \<open>A reference instance of the float builtins\<close>

text \<open>
  For evaluating the model on concrete lines: floats as signed decimal fractions
  (\<open>Fin neg m s\<close> is \<open>m / 10 ^ s\<close>, negated when \<open>neg\<close>), NaN and infinity.  \<open>dec_of_str\<close>
  reads the literals \<open>[sign] digits [. digits]\<close>, \<open>nan\<close> and \<open>inf\<close>; rounding is to the
  nearest integer, ties to even, as \<open>round\<close> does.
\<close>

datatype dec = Fin bool nat nat | NaN | Inf bool

definition half_even :: "nat \<Rightarrow> nat \<Rightarrow> nat" where
  "half_even m d =
     (let q = m div d; r = m mod d in
      if 2 * r < d then q else if d < 2 * r then q + 1 else if even q then q else q + 1)"

definition digits_val :: "string \<Rightarrow> nat" where
  "digits_val ds = foldl (\<lambda>a c. a * 10 + digit_val c) 0 ds"

definition dec_unsigned :: "bool \<Rightarrow> string \<Rightarrow> dec option" where
  "dec_unsigned neg r =
     (if r = ''nan'' then Some NaN
      else if r = ''inf'' then Some (Inf neg)
      else
        let ip = takeWhile is_digit r; rest = dropWhile is_digit r in
        case rest of
          [] \<Rightarrow> (if ip = [] then None else Some (Fin neg (digits_val ip) 0))
        | c # fp \<Rightarrow>
            if c = CHR ''.'' \<and> list_all is_digit fp \<and> (ip \<noteq> [] \<or> fp \<noteq> [])
            then Some (Fin neg (digits_val (ip @ fp)) (length fp))
            else None)"

definition dec_of_str :: "string \<Rightarrow> dec option" where
  "dec_of_str s =
     (case py_strip s of
        [] \<Rightarrow> None
      | c # r \<Rightarrow>
          if c = CHR ''-'' then dec_unsigned True r
          else if c = CHR ''+'' then dec_unsigned False r
          else dec_unsigned False (c # r))"

definition dec_of_int :: "int \<Rightarrow> dec" where
  "dec_of_int i = Fin (i < 0) (nat \<bar>i\<bar>) 0"

definition dec_round :: "dec \<Rightarrow> int option" where
  "dec_round x =
     (case x of
        Fin neg m s \<Rightarrow>
          (let n = int (half_even m (10 ^ s)) in Some (if neg then - n else n))
      | _ \<Rightarrow> None)"

definition pad_zeros :: "nat \<Rightarrow> string \<Rightarrow> string" where
  "pad_zeros n ds = replicate (n - length ds) CHR ''0'' @ ds"

definition dec_fmt :: "nat \<Rightarrow> dec \<Rightarrow> string" where
  "dec_fmt n x =
     (case x of
        NaN \<Rightarrow> ''nan''
      | Inf neg \<Rightarrow> (if neg then ''-inf'' else ''inf'')
      | Fin neg m s \<Rightarrow>
          (let k = (if s \<le> n then m * 10 ^ (n - s) else half_even m (10 ^ (s - n))) in
           (if neg then ''-'' else []) @ nat_str (k div 10 ^ n)
             @ (if n = 0 then [] else CHR ''.'' # pad_zeros n (nat_str (k mod 10 ^ n)))))"

definition py :: "dec env" where
  "py = \<lparr>float_of_str = dec_of_str, float_of_int = dec_of_int, int_round = dec_round,
         fmt_fixed = dec_fmt, cmd_on_set = True\<rparr>"

section \<open>Notions the properties are stated with\<close>

definition token :: "string \<Rightarrow> bool" where
  \<comment> \<open>a non-empty text without whitespace and without the segment separator\<close>
  "token s = (s \<noteq> [] \<and> list_all (\<lambda>c. \<not> is_space c \<and> c \<noteq> CHR ''|'') s)"

definition status_line :: "string \<Rightarrow> string \<Rightarrow> string \<Rightarrow> string" where
  \<comment> \<open>the wire format \<open>RPM: <float> | SP: <float> | STATE: <token ...>\<close>\<close>
  "status_line a b lbl = ''RPM: '' @ a @ '' | SP: '' @ b @ '' | STATE: '' @ lbl"

definition last_n :: "nat \<Rightarrow> 'a list \<Rightarrow> 'a list" where
  "last_n n xs = drop (length xs - n) xs"

fun accepted :: "'f env \<Rightarrow> event list \<Rightarrow> 'f gui \<Rightarrow> 'f reading list" where
  "accepted E [] g = []"
| "accepted E (e # es) g =
     (case e of
        DeviceLine l \<Rightarrow> (case line_outcome E l g of Parsed r \<Rightarrow> [r] | _ \<Rightarrow> [])
      | _ \<Rightarrow> [])
     @ accepted E es (step E e g)"

definition hist_rel :: "'f gui \<Rightarrow> 'f reading list \<Rightarrow> bool" where
  \<comment> \<open>the history holds the last 300 of the readings \<open>rs\<close>, numbered from 1\<close>
  "hist_rel g rs =
     (max_points g = 300
      \<and> sample_count g = int (length rs)
      \<and> sample_indices g = last_n 300 (map (\<lambda>i. int i + 1) [0 ..< length rs])
      \<and> temp_history g = last_n 300 (map rpm rs)
      \<and> sp_history g = last_n 300 (map setpoint rs))"

definition timer_inv :: "'f gui \<Rightarrow> bool" where
  \<comment> \<open>the table of pending revert callbacks holds the callback whose identifier the
      controller remembers, and nothing else; one is remembered exactly while the user
      is adjusting\<close>
  "timer_inv g =
     (user_adjusting_slider g = (slider_revert_after_id g \<noteq> None)
      \<and> (case slider_revert_after_id g of
            None \<Rightarrow> timers g = []
          | Some i \<Rightarrow> map fst (timers g) = [i]))"

section \<open>Properties\<close>

subsection \<open>Methods as record updates\<close>

lemma update_slider_label_eq:
  "update_slider_label E v g =
     g\<lparr>sp_slider_label_var :=
         (case to_float E v of Inl _ \<Rightarrow> ''SP to set: -- RPM''
          | Inr x \<Rightarrow> ''SP to set: '' @ fmt_fixed E 1 x @ '' RPM'')\<rparr>"
  by (simp add: update_slider_label_def split: sum.splits)

lemma on_slider_changed_eq:
  "on_slider_changed E v g =
     (if ignore_slider_change g then g
      else g\<lparr>sp_slider_label_var :=
               (case to_float E v of Inl _ \<Rightarrow> ''SP to set: -- RPM''
                | Inr x \<Rightarrow> ''SP to set: '' @ fmt_fixed E 1 x @ '' RPM''),
             user_adjusting_slider := True,
             timers := (case slider_revert_after_id g of None \<Rightarrow> timers g
                        | Some i \<Rightarrow> filter (\<lambda>t. fst t \<noteq> i) (timers g))
                       @ [(next_after_id g, clock g + 5000)],
             next_after_id := next_after_id g + 1,
             slider_revert_after_id := Some (next_after_id g)\<rparr>)"
  by (simp add: on_slider_changed_def update_slider_label_eq tk_after_def tk_after_cancel_def
        Let_def split: option.splits)

lemma slider_set_ignored:
  "ignore_slider_change g \<Longrightarrow> slider_set E n g = g\<lparr>sp_slider_var := n\<rparr>"
  by (simp add: slider_set_def on_slider_changed_def Let_def)

lemma revert_eq:
  "revert_slider_to_current_sp E g =
     (if current_sp_value g = PNone
      then g\<lparr>slider_revert_after_id := None, user_adjusting_slider := False\<rparr>
      else case py_int_round E (current_sp_value g) of
             Inl _ \<Rightarrow> g\<lparr>slider_revert_after_id := None, user_adjusting_slider := False,
                        ignore_slider_change := True\<rparr>
           | Inr n \<Rightarrow> g\<lparr>slider_revert_after_id := None, user_adjusting_slider := False,
                        sp_slider_var := n, ignore_slider_change := False,
                        sp_slider_label_var :=
                          (case to_float E (current_sp_value g) of Inl _ \<Rightarrow> ''SP to set: -- RPM''
                           | Inr x \<Rightarrow> ''SP to set: '' @ fmt_fixed E 1 x @ '' RPM'')\<rparr>)"
  by (simp add: revert_slider_to_current_sp_def slider_set_ignored update_slider_label_eq Let_def
        split: sum.splits)

lemma sync_slider_eq:
  "sync_slider E g =
     (if \<not> user_adjusting_slider g \<and> current_sp_value g \<noteq> PNone then
        (case py_int_round E (current_sp_value g) of
           Inl e \<Rightarrow> (g\<lparr>ignore_slider_change := True\<rparr>, Some e)
         | Inr n \<Rightarrow>
             (g\<lparr>sp_slider_var := n, ignore_slider_change := False,
                sp_slider_label_var :=
                  (case to_float E (current_sp_value g) of Inl _ \<Rightarrow> ''SP to set: -- RPM''
                   | Inr x \<Rightarrow> ''SP to set: '' @ fmt_fixed E 1 x @ '' RPM'')\<rparr>, None))
      else (g, None))"
  by (simp add: sync_slider_def slider_set_ignored update_slider_label_eq Let_def
        split: sum.splits)

lemma on_set_sp_eq:
  "on_set_sp E wr g =
     (case client g of
        None \<Rightarrow> g\<lparr>dialogs := dialogs g @ [ShowWarning ''Not connected'' ''Connect to the centrifuge first.'']\<rparr>
      | Some c \<Rightarrow>
          g\<lparr>client := Some (fst (send_setpoint (sp_slider_var g) wr (c, status_queue g))),
            status_queue := snd (send_setpoint (sp_slider_var g) wr (c, status_queue g)),
            current_sp_value := PInt (sp_slider_var g),
            sp_var := fmt_fixed E 1 (float_of_int E (sp_slider_var g)) @ '' C'',
            sp_slider_label_var := ''SP to set: '' @ fmt_fixed E 1 (float_of_int E (sp_slider_var g)) @ '' RPM'',
            user_adjusting_slider := False,
            timers := (case slider_revert_after_id g of None \<Rightarrow> timers g
                        | Some i \<Rightarrow> filter (\<lambda>t. fst t \<noteq> i) (timers g)),
            slider_revert_after_id := None\<rparr>)"
  by (simp add: on_set_sp_def py_int_round_def update_slider_label_eq tk_after_cancel_def
        to_float_def Let_def split: option.splits prod.splits)

lemma to_float_PFloat: "to_float E (PFloat x) = Inr x"
  by (simp add: to_float_def)

lemma py_int_round_PFloat:
  "py_int_round E (PFloat x) = (case int_round E x of None \<Rightarrow> Inl RoundError | Some n \<Rightarrow> Inr n)"
  by (simp add: py_int_round_def)

lemma gate_set_button_eq:
  "gate_set_button k g =
     g\<lparr>set_button := (if client g \<noteq> None \<and> k = Some 1 then Disabled
                       else if client g \<noteq> None \<and> k = Some 0 then Normal
                       else set_button g)\<rparr>"
  by (simp add: gate_set_button_def)

subsection \<open>The history lists\<close>

lemma length_last_n: "length (last_n n xs) = min n (length xs)"
  by (simp add: last_n_def)

lemma last_n_snoc:
  "last_n 300 (xs @ [x]) =
     (if 300 < Suc (length (last_n 300 xs)) then tl (last_n 300 xs @ [x]) else last_n 300 xs @ [x])"
proof (cases "length xs < 300")
  case True
  then show ?thesis by (simp add: last_n_def)
next
  case False
  define k where "k = length xs - 300"
  have k: "k < length xs" "Suc (length xs) - 300 = Suc k" "length xs - k = 300"
    using False by (simp_all add: k_def)
  have ne: "drop k xs \<noteq> []" using k by simp
  have "tl (drop k xs @ [x]) = tl (drop k xs) @ [x]" using ne by (simp add: tl_append2)
  also have "\<dots> = drop (Suc k) xs @ [x]" by (simp add: tl_drop drop_Suc)
  finally show ?thesis
    using k False by (simp add: last_n_def k_def [symmetric])
qed

lemma last_n_301: "length xs = 301 \<Longrightarrow> last_n 300 xs = tl xs"
  by (simp add: last_n_def drop_Suc)

lemma record_sample_eq:
  assumes "length (temp_history g) = length (sample_indices g)"
      and "length (sp_history g) = length (sample_indices g)"
  shows "record_sample t s g =
     (g\<lparr>sample_count := sample_count g + 1,
        sample_indices :=
          (if max_points g < Suc (length (sample_indices g))
           then tl (sample_indices g @ [sample_count g + 1])
           else sample_indices g @ [sample_count g + 1]),
        temp_history :=
          (if max_points g < Suc (length (sample_indices g))
           then tl (temp_history g @ [t]) else temp_history g @ [t]),
        sp_history :=
          (if max_points g < Suc (length (sample_indices g))
           then tl (sp_history g @ [s]) else sp_history g @ [s])\<rparr>, None)"
  using assms
  by (cases "sample_indices g"; cases "temp_history g"; cases "sp_history g")
     (simp_all add: record_sample_def pop0_def Let_def)

lemma record_sample_last_n:
  assumes "max_points g = 300"
      and "sample_indices g = last_n 300 ixs"
      and "temp_history g = last_n 300 ts"
      and "sp_history g = last_n 300 ss"
      and "length ts = length ixs" and "length ss = length ixs"
  shows "record_sample t s g =
     (g\<lparr>sample_count := sample_count g + 1,
        sample_indices := last_n 300 (ixs @ [sample_count g + 1]),
        temp_history := last_n 300 (ts @ [t]),
        sp_history := last_n 300 (ss @ [s])\<rparr>, None)"
proof -
  have len: "length (temp_history g) = length (sample_indices g)"
            "length (sp_history g) = length (sample_indices g)"
    using assms by (simp_all add: length_last_n)
  show ?thesis
    unfolding record_sample_eq [OF len] last_n_snoc [of ixs] last_n_snoc [of ts] last_n_snoc [of ss]
    using assms by (simp add: length_last_n)
qed

lemma record_sample_hist:
  assumes "hist_rel g rs"
  shows "record_sample t s g =
     (g\<lparr>sample_count := int (length rs) + 1,
        sample_indices := last_n 300 (map (\<lambda>i. int i + 1) [0 ..< Suc (length rs)]),
        temp_history := last_n 300 (map rpm rs @ [t]),
        sp_history := last_n 300 (map setpoint rs @ [s])\<rparr>, None)"
proof -
  have cnt: "sample_count g = int (length rs)" using assms by (simp add: hist_rel_def)
  have "record_sample t s g =
     (g\<lparr>sample_count := sample_count g + 1,
        sample_indices := last_n 300 (map (\<lambda>i. int i + 1) [0 ..< length rs] @ [sample_count g + 1]),
        temp_history := last_n 300 (map rpm rs @ [t]),
        sp_history := last_n 300 (map setpoint rs @ [s])\<rparr>, None)"
    using assms by (intro record_sample_last_n) (simp_all add: hist_rel_def)
  then show ?thesis by (simp add: cnt)
qed

lemma hist_rel_upd:
  "hist_rel (g\<lparr>temp_var := a\<rparr>) rs = hist_rel g rs"
  "hist_rel (g\<lparr>sp_var := a\<rparr>) rs = hist_rel g rs"
  "hist_rel (g\<lparr>current_sp_value := v\<rparr>) rs = hist_rel g rs"
  "hist_rel (g\<lparr>sp_slider_var := n\<rparr>) rs = hist_rel g rs"
  "hist_rel (g\<lparr>ignore_slider_change := b\<rparr>) rs = hist_rel g rs"
  "hist_rel (g\<lparr>sp_slider_label_var := a\<rparr>) rs = hist_rel g rs"
  "hist_rel (g\<lparr>state_var := a\<rparr>) rs = hist_rel g rs"
  "hist_rel (g\<lparr>set_button := bs\<rparr>) rs = hist_rel g rs"
  "hist_rel (g\<lparr>console := co\<rparr>) rs = hist_rel g rs"
  by (simp_all add: hist_rel_def)

subsection \<open>The line handler\<close>

text \<open>What the \<open>try\<close> block does to a state whose history lists are consistent.\<close>

lemma handle_parts_eq:
  assumes "hist_rel g rs"
  shows "handle_parts E parts g =
    (case second_float E (parts ! 0) of
       Inl e \<Rightarrow> (g, Raised e)
     | Inr x \<Rightarrow>
       (case second_float E (parts ! 1) of
          Inl e \<Rightarrow> (g\<lparr>temp_var := fmt_fixed E 2 x @ '' ''\<rparr>, Raised e)
        | Inr y \<Rightarrow>
          if \<not> user_adjusting_slider g \<and> int_round E y = None then
            (g\<lparr>temp_var := fmt_fixed E 2 x @ '' '', sp_var := fmt_fixed E 1 y @ '' '',
               current_sp_value := PFloat y, ignore_slider_change := True\<rparr>, Raised RoundError)
          else
            let g4 = (if user_adjusting_slider g
                      then g\<lparr>temp_var := fmt_fixed E 2 x @ '' '', sp_var := fmt_fixed E 1 y @ '' '',
                             current_sp_value := PFloat y\<rparr>
                      else g\<lparr>temp_var := fmt_fixed E 2 x @ '' '', sp_var := fmt_fixed E 1 y @ '' '',
                             current_sp_value := PFloat y,
                             sp_slider_var := the (int_round E y), ignore_slider_change := False,
                             sp_slider_label_var := ''SP to set: '' @ fmt_fixed E 1 y @ '' RPM''\<rparr>);
                g5 = g4\<lparr>state_var := state_label (parts ! 2)\<rparr>
            in
            (case state_code (state_label (parts ! 2)) of
               Inl e \<Rightarrow> (g5, Raised e)
             | Inr k \<Rightarrow>
                 (g5\<lparr>set_button := (if client g \<noteq> None \<and> k = Some 1 then Disabled
                                     else if client g \<noteq> None \<and> k = Some 0 then Normal
                                     else set_button g),
                     sample_count := int (length rs) + 1,
                     sample_indices := last_n 300 (map (\<lambda>i. int i + 1) [0 ..< Suc (length rs)]),
                     temp_history := last_n 300 (map rpm rs @ [x]),
                     sp_history := last_n 300 (map setpoint rs @ [y])\<rparr>,
                  Parsed \<lparr>rpm = x, setpoint = y, stateCode = k,
                          stateLabel = state_label (parts ! 2)\<rparr>))))"
proof -
  note defs = handle_parts_def sync_slider_eq Let_def to_float_PFloat py_int_round_PFloat
    gate_set_button_eq hist_rel_upd record_sample_hist [where rs = rs]
  show ?thesis
  proof (cases "second_float E (parts ! 0)")
    case Inl
    then show ?thesis by (simp add: handle_parts_def)
  next
    case x: (Inr x)
    show ?thesis
    proof (cases "second_float E (parts ! 1)")
      case Inl
      then show ?thesis using x by (simp add: handle_parts_def)
    next
      case y: (Inr y)
      show ?thesis
      proof (cases "user_adjusting_slider g")
        case True
        then show ?thesis
          using x y assms by (cases "state_code (state_label (parts ! 2))") (simp_all add: defs)
      next
        case adj: False
        show ?thesis
        proof (cases "int_round E y")
          case None
          then show ?thesis using x y adj assms by (simp add: defs)
        next
          case (Some n)
          then show ?thesis
            using x y adj assms by (cases "state_code (state_label (parts ! 2))") (simp_all add: defs)
        qed
      qed
    qed
  qed
qed

lemma handle_parts_timers:
  assumes "hist_rel g rs"
  shows "timers (fst (handle_parts E parts g)) = timers g"
    and "slider_revert_after_id (fst (handle_parts E parts g)) = slider_revert_after_id g"
    and "user_adjusting_slider (fst (handle_parts E parts g)) = user_adjusting_slider g"
  by (simp_all add: handle_parts_eq [OF assms] Let_def split: sum.splits)

lemma handle_parts_hist:
  assumes "hist_rel g rs"
  shows "hist_rel (fst (handle_parts E parts g))
           (rs @ (case snd (handle_parts E parts g) of Parsed r \<Rightarrow> [r] | _ \<Rightarrow> []))"
  using assms
  by (simp add: handle_parts_eq [OF assms] Let_def hist_rel_def split: sum.splits)

lemma handle_full_cases:
  "handle_full E l g = (append_log (l @ [CHR 0x0A]) g, Ignored)
   \<or> handle_full E l g
        = handle_parts E (map py_strip (py_split_sep CHR ''|'' (py_strip l))) (append_log (l @ [CHR 0x0A]) g)"
  by (simp add: handle_full_def Let_def)

lemma append_log_fields:
  "hist_rel (append_log t g) rs = hist_rel g rs"
  "timers (append_log t g) = timers g"
  "slider_revert_after_id (append_log t g) = slider_revert_after_id g"
  "user_adjusting_slider (append_log t g) = user_adjusting_slider g"
  by (simp_all add: append_log_def hist_rel_def)

lemma handle_line_hist:
  assumes "hist_rel g rs"
  shows "hist_rel (handle_device_line E l g)
           (rs @ (case line_outcome E l g of Parsed r \<Rightarrow> [r] | _ \<Rightarrow> []))"
proof -
  have h: "hist_rel (append_log (l @ [CHR 0x0A]) g) rs"
    using assms by (simp add: append_log_fields)
  from handle_full_cases [of E l g] show ?thesis
  proof
    assume "handle_full E l g = (append_log (l @ [CHR 0x0A]) g, Ignored)"
    then show ?thesis using h by (simp add: handle_device_line_def line_outcome_def)
  next
    assume "handle_full E l g
        = handle_parts E (map py_strip (py_split_sep CHR ''|'' (py_strip l))) (append_log (l @ [CHR 0x0A]) g)"
    then show ?thesis using handle_parts_hist [OF h]
      by (simp add: handle_device_line_def line_outcome_def)
  qed
qed

lemma handle_line_timers:
  assumes "hist_rel g rs"
  shows "timers (handle_device_line E l g) = timers g
       \<and> slider_revert_after_id (handle_device_line E l g) = slider_revert_after_id g
       \<and> user_adjusting_slider (handle_device_line E l g) = user_adjusting_slider g"
proof -
  have h: "hist_rel (append_log (l @ [CHR 0x0A]) g) rs"
    using assms by (simp add: append_log_fields)
  from handle_full_cases [of E l g] show ?thesis
  proof
    assume "handle_full E l g = (append_log (l @ [CHR 0x0A]) g, Ignored)"
    then show ?thesis by (simp add: handle_device_line_def append_log_fields)
  next
    assume "handle_full E l g
        = handle_parts E (map py_strip (py_split_sep CHR ''|'' (py_strip l))) (append_log (l @ [CHR 0x0A]) g)"
    then show ?thesis using handle_parts_timers [OF h]
      by (simp add: handle_device_line_def append_log_fields)
  qed
qed

lemma handle_line_parsed:
  assumes "hist_rel g rs" and "line_outcome E l g = Parsed r"
  shows "handle_device_line E l g =
      (if user_adjusting_slider g
       then g\<lparr>console := console g @ [l @ [CHR 0x0A]],
              temp_var := fmt_fixed E 2 (rpm r) @ '' '', sp_var := fmt_fixed E 1 (setpoint r) @ '' '',
              current_sp_value := PFloat (setpoint r)\<rparr>
       else g\<lparr>console := console g @ [l @ [CHR 0x0A]],
              temp_var := fmt_fixed E 2 (rpm r) @ '' '', sp_var := fmt_fixed E 1 (setpoint r) @ '' '',
              current_sp_value := PFloat (setpoint r),
              sp_slider_var := the (int_round E (setpoint r)), ignore_slider_change := False,
              sp_slider_label_var := ''SP to set: '' @ fmt_fixed E 1 (setpoint r) @ '' RPM''\<rparr>)
      \<lparr>state_var := stateLabel r,
       set_button := (if client g \<noteq> None \<and> stateCode r = Some 1 then Disabled
                      else if client g \<noteq> None \<and> stateCode r = Some 0 then Normal
                      else set_button g),
       sample_count := int (length rs) + 1,
       sample_indices := last_n 300 (map (\<lambda>i. int i + 1) [0 ..< Suc (length rs)]),
       temp_history := last_n 300 (map rpm rs @ [rpm r]),
       sp_history := last_n 300 (map setpoint rs @ [setpoint r])\<rparr>"
    and "user_adjusting_slider g \<or> int_round E (setpoint r) \<noteq> None"
proof -
  let ?g0 = "append_log (l @ [CHR 0x0A]) g"
  let ?parts = "map py_strip (py_split_sep CHR ''|'' (py_strip l))"
  have h: "hist_rel ?g0 rs" using assms(1) by (simp add: append_log_fields)
  have f: "user_adjusting_slider ?g0 = user_adjusting_slider g"
          "client ?g0 = client g" "set_button ?g0 = set_button g"
    by (simp_all add: append_log_def)
  have full: "handle_full E l g = handle_parts E ?parts ?g0"
    using handle_full_cases [of E l g] assms(2) by (auto simp add: line_outcome_def)
  then have out: "snd (handle_parts E ?parts ?g0) = Parsed r"
    using assms(2) by (simp add: line_outcome_def)
  note eq = handle_parts_eq [OF h, of E ?parts]
  obtain x where x: "second_float E (?parts ! 0) = Inr x"
    using out unfolding eq by (cases "second_float E (?parts ! 0)") simp_all
  obtain y where y: "second_float E (?parts ! 1) = Inr y"
    using out unfolding eq x by (cases "second_float E (?parts ! 1)") simp_all
  have c: "user_adjusting_slider g \<or> int_round E y \<noteq> None"
    using out unfolding eq x y by (cases "\<not> user_adjusting_slider g \<and> int_round E y = None") (simp_all add: f)
  obtain k where k: "state_code (state_label (?parts ! 2)) = Inr k"
    using out c unfolding eq x y
    by (cases "state_code (state_label (?parts ! 2))") (auto simp add: f Let_def)
  have r: "r = \<lparr>rpm = x, setpoint = y, stateCode = k, stateLabel = state_label (?parts ! 2)\<rparr>"
    using out c unfolding eq x y by (auto simp add: f k Let_def)
  show "user_adjusting_slider g \<or> int_round E (setpoint r) \<noteq> None" using c r by simp
  show "handle_device_line E l g =
      (if user_adjusting_slider g
       then g\<lparr>console := console g @ [l @ [CHR 0x0A]],
              temp_var := fmt_fixed E 2 (rpm r) @ '' '', sp_var := fmt_fixed E 1 (setpoint r) @ '' '',
              current_sp_value := PFloat (setpoint r)\<rparr>
       else g\<lparr>console := console g @ [l @ [CHR 0x0A]],
              temp_var := fmt_fixed E 2 (rpm r) @ '' '', sp_var := fmt_fixed E 1 (setpoint r) @ '' '',
              current_sp_value := PFloat (setpoint r),
              sp_slider_var := the (int_round E (setpoint r)), ignore_slider_change := False,
              sp_slider_label_var := ''SP to set: '' @ fmt_fixed E 1 (setpoint r) @ '' RPM''\<rparr>)
      \<lparr>state_var := stateLabel r,
       set_button := (if client g \<noteq> None \<and> stateCode r = Some 1 then Disabled
                      else if client g \<noteq> None \<and> stateCode r = Some 0 then Normal
                      else set_button g),
       sample_count := int (length rs) + 1,
       sample_indices := last_n 300 (map (\<lambda>i. int i + 1) [0 ..< Suc (length rs)]),
       temp_history := last_n 300 (map rpm rs @ [rpm r]),
       sp_history := last_n 300 (map setpoint rs @ [setpoint r])\<rparr>"
  proof (cases "user_adjusting_slider g")
    case True
    then show ?thesis
      unfolding handle_device_line_def full eq x y
      by (simp add: f k r Let_def append_log_def)
  next
    case False
    then obtain n where n: "int_round E y = Some n" using c by auto
    show ?thesis
      unfolding handle_device_line_def full eq x y
      using False by (simp add: f k r n Let_def append_log_def)
  qed
qed

lemma rejected_line_unchanged:
  assumes "\<not> startswith (py_strip l) ''RPM:''
           \<or> length (py_split_sep CHR ''|'' (py_strip l)) < 3
           \<or> (\<exists>e. second_float E (map py_strip (py_split_sep CHR ''|'' (py_strip l)) ! 0) = Inl e)"
  shows "handle_device_line E l g = g\<lparr>console := console g @ [l @ [CHR 0x0A]]\<rparr>"
proof (cases "\<not> startswith (py_strip l) ''RPM:'' \<or> length (py_split_sep CHR ''|'' (py_strip l)) < 3")
  case True
  then show ?thesis by (auto simp add: handle_device_line_def handle_full_def Let_def append_log_def)
next
  case False
  then obtain e where "second_float E (map py_strip (py_split_sep CHR ''|'' (py_strip l)) ! 0) = Inl e"
    using assms by blast
  then show ?thesis using False
    by (simp add: handle_device_line_def handle_full_def handle_parts_def Let_def append_log_def)
qed

subsection \<open>Invariants of the reachable states\<close>

lemma timer_inv_fields:
  assumes "timer_inv g" "timers g' = timers g"
    "slider_revert_after_id g' = slider_revert_after_id g"
    "user_adjusting_slider g' = user_adjusting_slider g"
  shows "timer_inv g'"
  using assms by (cases "slider_revert_after_id g") (simp_all add: timer_inv_def)

lemma step_hist_other:
  assumes "hist_rel g rs" "\<And>l. e \<noteq> DeviceLine l"
  shows "hist_rel (step E e g) rs"
proof (cases e)
  case Connect
  then show ?thesis using assms(1) by (simp add: on_connect_def hist_rel_def Let_def split: option.splits)
next
  case Disconnect
  then show ?thesis using assms(1) by (simp add: on_disconnect_def hist_rel_def Let_def split: option.splits)
next
  case (UserMove n s)
  then show ?thesis using assms(1) by (simp add: user_move_def on_slider_changed_eq hist_rel_def)
next
  case (TimerFires i)
  then show ?thesis using assms(1)
    by (simp add: timer_fires_def revert_eq tk_after_cancel_def hist_rel_def split: sum.splits)
next
  case (SetSP wr)
  then show ?thesis using assms(1) by (simp add: on_set_sp_eq hist_rel_def split: option.splits)
next
  case (DeviceLine l)
  then show ?thesis using assms(2) by simp
next
  case ThreadStarted
  then show ?thesis using assms(1) by (simp add: on_thread_def hist_rel_def split: option.splits prod.splits)
next
  case ThreadConnected
  then show ?thesis using assms(1) by (simp add: on_thread_def hist_rel_def split: option.splits prod.splits)
next
  case (ThreadFinished err)
  then show ?thesis using assms(1) by (simp add: on_thread_def hist_rel_def split: option.splits prod.splits)
next
  case (DroppedStarted i)
  then show ?thesis using assms(1) by (simp add: on_dropped_thread_def hist_rel_def split: prod.splits)
next
  case (DroppedConnected i)
  then show ?thesis using assms(1) by (simp add: on_dropped_thread_def hist_rel_def split: prod.splits)
next
  case (DroppedFinished i err)
  then show ?thesis using assms(1) by (simp add: on_dropped_thread_def hist_rel_def split: prod.splits)
next
  case (Advance dt)
  then show ?thesis using assms(1) by (simp add: hist_rel_def)
qed

lemma single_timer_filter:
  "map fst ts = [i] \<Longrightarrow> filter (\<lambda>t. fst t \<noteq> i) ts = []"
  by (cases ts) auto

lemma single_timer_due:
  "map fst ts = [j] \<Longrightarrow> list_ex (\<lambda>t. fst t = i \<and> P t) ts \<Longrightarrow> i = j"
  by (cases ts) auto

lemma step_timer_inv:
  assumes "timer_inv g" "hist_rel g rs"
  shows "timer_inv (step E e g)"
proof (cases e)
  case Connect
  then show ?thesis
    by (intro timer_inv_fields [OF assms(1)])
       (simp_all add: on_connect_def Let_def split: option.splits)
next
  case Disconnect
  then show ?thesis
    by (intro timer_inv_fields [OF assms(1)])
       (simp_all add: on_disconnect_def Let_def split: option.splits)
next
  case (UserMove n s)
  show ?thesis
  proof (cases "slider_revert_after_id g")
    case None
    then show ?thesis using assms(1) UserMove
      by (simp add: user_move_def on_slider_changed_eq timer_inv_def)
  next
    case (Some i)
    then show ?thesis using assms(1) UserMove
      by (simp add: user_move_def on_slider_changed_eq timer_inv_def single_timer_filter)
  qed
next
  case (TimerFires i)
  show ?thesis
  proof (cases "list_ex (\<lambda>t. fst t = i \<and> snd t \<le> clock g) (timers g)")
    case False
    then show ?thesis using assms(1) TimerFires by (simp add: timer_fires_def)
  next
    case True
    then obtain j where j: "slider_revert_after_id g = Some j"
      using assms(1) by (cases "slider_revert_after_id g") (auto simp add: timer_inv_def)
    then have ts: "map fst (timers g) = [j]" using assms(1) by (simp add: timer_inv_def)
    have "i = j" using single_timer_due [OF ts True] .
    then have "filter (\<lambda>t. fst t \<noteq> i) (timers g) = []" using ts by (simp add: single_timer_filter)
    then show ?thesis using True TimerFires
      by (simp add: timer_fires_def revert_eq tk_after_cancel_def timer_inv_def split: sum.splits)
  qed
next
  case (SetSP wr)
  show ?thesis
  proof (cases "client g")
    case None
    then show ?thesis using SetSP
      by (intro timer_inv_fields [OF assms(1)]) (simp_all add: on_set_sp_eq)
  next
    case (Some c)
    then show ?thesis using assms(1) SetSP
      by (cases "slider_revert_after_id g") (simp_all add: on_set_sp_eq timer_inv_def single_timer_filter)
  qed
next
  case (DeviceLine l)
  then show ?thesis using handle_line_timers [OF assms(2), of E l]
    by (intro timer_inv_fields [OF assms(1)]) simp_all
next
  case ThreadStarted
  then show ?thesis
    by (intro timer_inv_fields [OF assms(1)])
       (simp_all add: on_thread_def split: option.splits prod.splits)
next
  case ThreadConnected
  then show ?thesis
    by (intro timer_inv_fields [OF assms(1)])
       (simp_all add: on_thread_def split: option.splits prod.splits)
next
  case (ThreadFinished err)
  then show ?thesis
    by (intro timer_inv_fields [OF assms(1)])
       (simp_all add: on_thread_def split: option.splits prod.splits)
next
  case (DroppedStarted i)
  then show ?thesis
    by (intro timer_inv_fields [OF assms(1)])
       (simp_all add: on_dropped_thread_def split: prod.splits)
next
  case (DroppedConnected i)
  then show ?thesis
    by (intro timer_inv_fields [OF assms(1)])
       (simp_all add: on_dropped_thread_def split: prod.splits)
next
  case (DroppedFinished i err)
  then show ?thesis
    by (intro timer_inv_fields [OF assms(1)])
       (simp_all add: on_dropped_thread_def split: prod.splits)
next
  case (Advance dt)
  then show ?thesis by (intro timer_inv_fields [OF assms(1)]) simp_all
qed

lemma step_hist:
  assumes "hist_rel g rs"
  shows "hist_rel (step E e g) (rs @ accepted E [e] g)"
proof (cases "\<exists>l. e = DeviceLine l")
  case True
  then obtain l where "e = DeviceLine l" by blast
  then show ?thesis using handle_line_hist [OF assms, of E l] by simp
next
  case False
  then have "accepted E [e] g = []" by (cases e) simp_all
  then show ?thesis using step_hist_other [OF assms, of e E] False by simp
qed

lemma accepted_Cons: "accepted E (e # es) g = accepted E [e] g @ accepted E es (step E e g)"
  by simp

lemma run_events_inv:
  assumes "hist_rel g rs" "timer_inv g"
  shows "hist_rel (run_events E evs g) (rs @ accepted E evs g) \<and> timer_inv (run_events E evs g)"
  using assms
proof (induction evs arbitrary: g rs)
  case Nil
  then show ?case by (simp add: run_events_def)
next
  case (Cons e es)
  have h: "hist_rel (step E e g) (rs @ accepted E [e] g)" using step_hist [OF Cons.prems(1)] .
  have t: "timer_inv (step E e g)" using step_timer_inv [OF Cons.prems(2) Cons.prems(1)] .
  have r: "run_events E (e # es) g = run_events E es (step E e g)" by (simp add: run_events_def)
  show ?case using Cons.IH [OF h t] unfolding r accepted_Cons [of E e es g] by simp
qed

lemma init_inv: "hist_rel (init_gui E) [] \<and> timer_inv (init_gui E)"
  by (simp add: init_gui_def update_slider_label_eq hist_rel_def timer_inv_def last_n_def)

lemma reachable_inv:
  "hist_rel (run_events E evs (init_gui E)) (accepted E evs (init_gui E))
   \<and> timer_inv (run_events E evs (init_gui E))"
  using run_events_inv [of "init_gui E" "[]" E evs] init_inv [of E] by simp

lemma timer_inv_adjusting:
  assumes "timer_inv g" and "user_adjusting_slider g"
  shows "\<exists>i d. slider_revert_after_id g = Some i \<and> timers g = [(i, d)]"
proof -
  obtain i where i: "slider_revert_after_id g = Some i"
    using assms by (cases "slider_revert_after_id g") (auto simp add: timer_inv_def)
  then have "map fst (timers g) = [i]" using assms(1) by (simp add: timer_inv_def)
  then obtain d where "timers g = [(i, d)]" by (cases "timers g") auto
  then show ?thesis using i by blast
qed

lemma timer_inv_length: "timer_inv g \<Longrightarrow> length (timers g) \<le> 1"
proof (cases "slider_revert_after_id g")
  case None
  assume "timer_inv g"
  then show ?thesis using None by (simp add: timer_inv_def)
next
  case (Some i)
  assume "timer_inv g"
  then have "length (map fst (timers g)) = 1" using Some by (simp add: timer_inv_def)
  then show ?thesis by simp
qed

lemma timer_inv_cancel:
  assumes "timer_inv g"
  shows "(case slider_revert_after_id g of None \<Rightarrow> timers g
          | Some i \<Rightarrow> filter (\<lambda>t. fst t \<noteq> i) (timers g)) = []"
  using assms by (cases "slider_revert_after_id g") (simp_all add: timer_inv_def single_timer_filter)

subsection \<open>Splitting a status line\<close>

lemma space_chars:
  "is_space CHR '' ''" "\<not> is_space CHR ''R''" "\<not> is_space CHR ''S''" "\<not> is_space CHR '':''"
  "\<not> is_space CHR ''|''" "\<not> is_space CHR ''P''" "\<not> is_space CHR ''M''"
  "\<not> is_space CHR ''T''" "\<not> is_space CHR ''A''" "\<not> is_space CHR ''E''"
  by (simp_all add: is_space_def)

lemma rstrip_Cons:
  "py_rstrip (c # s) = (if is_space c \<and> py_rstrip s = [] then [] else c # py_rstrip s)"
  by (auto simp add: py_rstrip_def dropWhile_append dropWhile_eq_Nil_conv)

lemma rstrip_Nil: "py_rstrip [] = []"
  by (simp add: py_rstrip_def)

lemma rstrip_append_nonspace:
  "\<not> is_space c \<Longrightarrow> py_rstrip (p @ c # y) = p @ c # py_rstrip y"
  by (induction p) (simp_all add: rstrip_Cons)

lemma rstrip_idem: "py_rstrip (py_rstrip s) = py_rstrip s"
  by (induction s) (simp_all add: rstrip_Cons rstrip_Nil)

lemma lstrip_rstrip: "py_lstrip (py_rstrip s) = py_rstrip (py_lstrip s)"
proof (induction s)
  case Nil
  then show ?case by (simp add: py_lstrip_def rstrip_Nil)
next
  case (Cons c s)
  show ?case
  proof (cases "is_space c \<and> py_rstrip s = []")
    case True
    then have "py_rstrip (py_lstrip s) = []" using Cons by (simp add: py_lstrip_def)
    then show ?thesis using True by (simp add: rstrip_Cons py_lstrip_def)
  next
    case False
    then show ?thesis using Cons by (auto simp add: rstrip_Cons py_lstrip_def)
  qed
qed

lemma strip_rstrip: "py_strip (py_rstrip s) = py_strip s"
  by (simp add: py_strip_def lstrip_rstrip rstrip_idem)

lemma strip_space_Cons: "is_space c \<Longrightarrow> py_strip (c # s) = py_strip s"
  by (simp add: py_strip_def py_lstrip_def)

lemma set_rstrip: "set (py_rstrip s) \<subseteq> set s"
  by (induction s) (auto simp add: rstrip_Cons rstrip_Nil)

lemma token_rstrip: "token a \<Longrightarrow> py_rstrip a = a"
proof -
  assume t: "token a"
  then obtain p c where a: "a = p @ [c]" by (cases a rule: rev_cases) (auto simp add: token_def)
  then have "\<not> is_space c" using t by (simp add: token_def)
  then show ?thesis unfolding a using rstrip_append_nonspace [of c p "[]"] by (simp add: rstrip_Nil)
qed

lemma split_ws_token:
  "list_all (\<lambda>c. \<not> is_space c) t \<Longrightarrow> split_ws cur (t @ rest) = split_ws (cur @ t) rest"
  by (induction t arbitrary: cur) simp_all

lemma split_on_no_sep:
  "sep \<notin> set s \<Longrightarrow> split_on sep cur (s @ sep # rest) = (cur @ s) # split_on sep [] rest"
  by (induction s arbitrary: cur) auto

lemma split_on_last:
  "sep \<notin> set s \<Longrightarrow> split_on sep cur s = [cur @ s]"
  by (induction s arbitrary: cur) auto

lemma token_no_space: "token a \<Longrightarrow> list_all (\<lambda>c. \<not> is_space c) a"
  by (simp add: token_def list_all_iff)

lemma token_no_bar: "token a \<Longrightarrow> CHR ''|'' \<notin> set a"
  by (auto simp add: token_def list_all_iff)

lemma split_field:
  assumes "token a"
  shows "py_split (''RPM: '' @ a) = [''RPM:'', a]" and "py_split (''SP: '' @ a) = [''SP:'', a]"
  using assms split_ws_token [OF token_no_space [OF assms], of "[]" "[]"]
  by (simp_all add: py_split_def space_chars token_def)

lemma second_float_field:
  assumes "token a"
  shows "second_float E (''RPM: '' @ a)
           = (case float_of_str E a of None \<Rightarrow> Inl ValueError | Some x \<Rightarrow> Inr x)"
    and "second_float E (''SP: '' @ a)
           = (case float_of_str E a of None \<Rightarrow> Inl ValueError | Some x \<Rightarrow> Inr x)"
  by (simp_all only: second_float_def split_field [OF assms] list.case)

lemma strip_field:
  assumes "token a"
  shows "py_strip (''RPM: '' @ a @ '' '') = ''RPM: '' @ a"
    and "py_strip ('' SP: '' @ a @ '' '') = ''SP: '' @ a"
proof -
  obtain p c where a: "a = p @ [c]" and c: "\<not> is_space c"
    using assms by (cases a rule: rev_cases) (auto simp add: token_def)
  have "py_rstrip ((''RPM: '' @ p) @ c # '' '') = (''RPM: '' @ p) @ c # py_rstrip '' ''"
    using c by (rule rstrip_append_nonspace)
  then show "py_strip (''RPM: '' @ a @ '' '') = ''RPM: '' @ a"
    by (simp add: a py_strip_def py_lstrip_def space_chars rstrip_Cons rstrip_Nil)
  have "py_rstrip ((''SP: '' @ p) @ c # '' '') = (''SP: '' @ p) @ c # py_rstrip '' ''"
    using c by (rule rstrip_append_nonspace)
  then show "py_strip ('' SP: '' @ a @ '' '') = ''SP: '' @ a"
    by (simp add: a py_strip_def py_lstrip_def space_chars rstrip_Cons rstrip_Nil)
qed

lemma strip_state:
  "py_strip ('' STATE:'' @ py_rstrip s) = ''STATE:'' @ py_rstrip s"
  using rstrip_append_nonspace [of "CHR '':''" "''STATE''" "py_rstrip s"]
  by (simp add: py_strip_def py_lstrip_def space_chars rstrip_idem)

lemma state_label_state:
  "state_label (''STATE:'' @ py_rstrip ('' '' @ lbl)) = py_strip lbl"
  by (simp add: state_label_def py_split1_def strip_rstrip strip_space_Cons space_chars)

lemma strip_status_line:
  "py_strip (status_line a b lbl)
     = ''RPM: '' @ a @ '' | SP: '' @ b @ '' | STATE:'' @ py_rstrip ('' '' @ lbl)"
  using rstrip_append_nonspace [of "CHR '':''" "''RPM: '' @ a @ '' | SP: '' @ b @ '' | STATE''" "'' '' @ lbl"]
  by (simp add: status_line_def py_strip_def py_lstrip_def space_chars)

lemma parts_status_line:
  assumes "token a" "token b" "CHR ''|'' \<notin> set lbl"
  shows "map py_strip (py_split_sep CHR ''|'' (py_strip (status_line a b lbl)))
           = [''RPM: '' @ a, ''SP: '' @ b, ''STATE:'' @ py_rstrip ('' '' @ lbl)]"
proof -
  have n1: "CHR ''|'' \<notin> set (''RPM: '' @ a @ '' '')" using token_no_bar [OF assms(1)] by simp
  have n2: "CHR ''|'' \<notin> set ('' SP: '' @ b @ '' '')" using token_no_bar [OF assms(2)] by simp
  have n3: "CHR ''|'' \<notin> set ('' STATE:'' @ py_rstrip ('' '' @ lbl))"
    using assms(3) set_rstrip [of "'' '' @ lbl"] by auto
  have "py_split_sep CHR ''|'' (py_strip (status_line a b lbl))
          = split_on CHR ''|'' [] ((''RPM: '' @ a @ '' '') @ CHR ''|''
              # (('' SP: '' @ b @ '' '') @ CHR ''|'' # ('' STATE:'' @ py_rstrip ('' '' @ lbl))))"
    by (simp add: strip_status_line py_split_sep_def)
  also have "\<dots> = [''RPM: '' @ a @ '' '', '' SP: '' @ b @ '' '', '' STATE:'' @ py_rstrip ('' '' @ lbl)]"
    unfolding split_on_no_sep [OF n1] split_on_no_sep [OF n2] split_on_last [OF n3] by simp
  finally show ?thesis
    using strip_field [OF assms(1)] strip_field [OF assms(2)] strip_state [of "'' '' @ lbl"]
    by simp
qed

lemma startswith_status_line: "startswith (py_strip (status_line a b lbl)) ''RPM:''"
  by (simp add: strip_status_line startswith_def)

lemma handle_full_status_line:
  assumes "token a" "token b" "CHR ''|'' \<notin> set lbl"
  shows "handle_full E (status_line a b lbl) g
           = handle_parts E [''RPM: '' @ a, ''SP: '' @ b, ''STATE:'' @ py_rstrip ('' '' @ lbl)]
               (append_log (status_line a b lbl @ [CHR 0x0A]) g)"
  by (simp add: handle_full_def Let_def startswith_status_line parts_status_line [OF assms])

lemma status_line_parts_eq:
  assumes "token a" "token b" "CHR ''|'' \<notin> set lbl" "hist_rel g rs"
  shows "handle_full E (status_line a b lbl) g =
    (let g0 = append_log (status_line a b lbl @ [CHR 0x0A]) g in
     case float_of_str E a of
       None \<Rightarrow> (g0, Raised ValueError)
     | Some x \<Rightarrow>
       (case float_of_str E b of
          None \<Rightarrow> (g0\<lparr>temp_var := fmt_fixed E 2 x @ '' ''\<rparr>, Raised ValueError)
        | Some y \<Rightarrow>
          if \<not> user_adjusting_slider g \<and> int_round E y = None then
            (g0\<lparr>temp_var := fmt_fixed E 2 x @ '' '', sp_var := fmt_fixed E 1 y @ '' '',
               current_sp_value := PFloat y, ignore_slider_change := True\<rparr>, Raised RoundError)
          else
            let g4 = (if user_adjusting_slider g
                      then g0\<lparr>temp_var := fmt_fixed E 2 x @ '' '', sp_var := fmt_fixed E 1 y @ '' '',
                             current_sp_value := PFloat y\<rparr>
                      else g0\<lparr>temp_var := fmt_fixed E 2 x @ '' '', sp_var := fmt_fixed E 1 y @ '' '',
                             current_sp_value := PFloat y,
                             sp_slider_var := the (int_round E y), ignore_slider_change := False,
                             sp_slider_label_var := ''SP to set: '' @ fmt_fixed E 1 y @ '' RPM''\<rparr>);
                g5 = g4\<lparr>state_var := py_strip lbl\<rparr>
            in
            (case state_code (py_strip lbl) of
               Inl e \<Rightarrow> (g5, Raised e)
             | Inr k \<Rightarrow>
                 (g5\<lparr>set_button := (if client g \<noteq> None \<and> k = Some 1 then Disabled
                                     else if client g \<noteq> None \<and> k = Some 0 then Normal
                                     else set_button g),
                     sample_count := int (length rs) + 1,
                     sample_indices := last_n 300 (map (\<lambda>i. int i + 1) [0 ..< Suc (length rs)]),
                     temp_history := last_n 300 (map rpm rs @ [x]),
                     sp_history := last_n 300 (map setpoint rs @ [y])\<rparr>,
                  Parsed \<lparr>rpm = x, setpoint = y, stateCode = k, stateLabel = py_strip lbl\<rparr>))))"
proof -
  have h: "hist_rel (append_log (status_line a b lbl @ [CHR 0x0A]) g) rs"
    using assms(4) by (simp add: append_log_fields)
  have f: "user_adjusting_slider (append_log t g) = user_adjusting_slider g"
          "client (append_log t g) = client g" "set_button (append_log t g) = set_button g" for t
    by (simp_all add: append_log_def)
  let ?parts = "[''RPM: '' @ a, ''SP: '' @ b, ''STATE:'' @ py_rstrip ('' '' @ lbl)]"
  have e0: "second_float E (?parts ! 0)
              = (case float_of_str E a of None \<Rightarrow> Inl ValueError | Some x \<Rightarrow> Inr x)"
    using second_float_field (1) [OF assms(1), of E] by simp
  have e1: "second_float E (?parts ! 1)
              = (case float_of_str E b of None \<Rightarrow> Inl ValueError | Some x \<Rightarrow> Inr x)"
    using second_float_field (2) [OF assms(2), of E] by simp
  have e2: "state_label (?parts ! 2) = py_strip lbl"
    using state_label_state [of lbl] by simp
  show ?thesis
    unfolding handle_full_status_line [OF assms(1-3)] handle_parts_eq [OF h] e0 e1 e2
    by (cases "float_of_str E a"; cases "float_of_str E b"; cases "state_code (py_strip lbl)")
       (simp_all add: f Let_def)
qed

lemma status_line_outcome:
  assumes "token a" and "token b" and "CHR ''|'' \<notin> set lbl"
      and "float_of_str E a = Some x" and "float_of_str E b = Some y"
      and "py_split (py_strip lbl) = t # ts"
      and "hist_rel g rs"
      and "user_adjusting_slider g \<or> int_round E y \<noteq> None"
  shows "line_outcome E (status_line a b lbl) g
           = Parsed \<lparr>rpm = x, setpoint = y, stateCode = py_int t, stateLabel = py_strip lbl\<rparr>"
proof -
  have k: "state_code (py_strip lbl) = Inr (py_int t)"
    using assms(6) by (simp add: state_code_def)
  show ?thesis
    unfolding line_outcome_def status_line_parts_eq [OF assms(1-3) assms(7)]
    using assms(4,5,8) k by (auto simp add: Let_def)
qed

subsection \<open>The initial state and the reference floats\<close>

lemmas strip_defs = py_strip_def py_lstrip_def py_rstrip_def is_space_def

lemmas dec_defs = dec_of_str_def dec_unsigned_def strip_defs is_digit_def digits_val_def
  digit_val_def

lemma py_fields:
  "float_of_str py = dec_of_str" "float_of_int py = dec_of_int" "int_round py = dec_round"
  "fmt_fixed py = dec_fmt" "cmd_on_set py = True"
  by (simp_all add: py_def)

lemma dec_of_str_examples:
  "dec_of_str ''1.0'' = Some (Fin False 10 1)"
  "dec_of_str ''2.0'' = Some (Fin False 20 1)"
  "dec_of_str ''23.45'' = Some (Fin False 2345 2)"
  "dec_of_str ''50.0'' = Some (Fin False 500 1)"
  "dec_of_str ''nan'' = Some NaN"
  "dec_of_str ''abc'' = None"
  by (simp_all add: dec_defs del: One_nat_def)

lemma dec_round_examples:
  "dec_round (Fin False 500 1) = Some 50"
  "dec_round (Fin False 20 1) = Some 2"
  "dec_round NaN = None"
  by (simp_all add: dec_round_def half_even_def del: One_nat_def)

lemma dec_fmt_examples:
  "dec_fmt 2 (Fin False 10 1) = ''1.00''"
  "dec_fmt 1 (Fin False 25 0) = ''25.0''"
  by (simp_all add: dec_fmt_def pad_zeros_def nat_str.simps digit_char_def)

lemma token_examples:
  "token ''1.0''" "token ''2.0''" "token ''23.45''" "token ''50.0''" "token ''nan''" "token ''abc''"
  by (simp_all add: token_def is_space_def)

lemma label_examples:
  "py_strip ''0'' = ''0''" "py_split ''0'' = [''0'']" "py_int ''0'' = Some 0"
  "py_strip ''1'' = ''1''" "py_split ''1'' = [''1'']" "py_int ''1'' = Some 1"
  by (simp_all add: py_split_def py_int_def strip_defs is_digit_def digit_val_def)

lemma py_str_examples: "py_str 60 = ''60''" "py_str 50 = ''50''"
  by (simp_all add: py_str_def nat_str.simps digit_char_def)

lemma py_strip_host: "py_strip ''192.168.1.49'' = ''192.168.1.49''"
  by (simp add: py_strip_def py_lstrip_def py_rstrip_def is_space_def)

lemma py_int_minus5: "py_int ''-5'' = Some (- 5)"
  by (simp add: py_int_def py_strip_def py_lstrip_def py_rstrip_def is_space_def is_digit_def digit_val_def)

lemma py_int_abc: "py_int ''50x'' = None"
  by (simp add: py_int_def py_strip_def py_lstrip_def py_rstrip_def is_space_def is_digit_def digit_val_def)

lemma init_gui_fields:
  "user_adjusting_slider (init_gui E) = False" "set_button (init_gui E) = Disabled"
  "temp_var (init_gui E) = ''--.- RPM''" "state_var (init_gui E) = ''--''"
  "ignore_slider_change (init_gui E) = False" "timers (init_gui E) = []"
  "next_after_id (init_gui E) = 0" "clock (init_gui E) = 0"
  "current_sp_value (init_gui E) = PNone" "sp_slider_var (init_gui E) = 25"
  by (simp_all add: init_gui_def update_slider_label_eq)

lemma client_init_gui: "client (init_gui E) = None"
  by (simp add: init_gui_def update_slider_label_eq)

lemma host_var_init_gui: "host_var (init_gui E) = ''192.168.1.49''"
  by (simp add: init_gui_def update_slider_label_eq)

lemma dialogs_init_gui: "dialogs (init_gui E) = []"
  by (simp add: init_gui_def update_slider_label_eq)

lemma port_var_init_gui: "py_int (py_strip (port_var (init_gui E))) = Some 5000"
  by (simp add: init_gui_def update_slider_label_eq py_str_def nat_str.simps digit_char_def
        py_int_def strip_defs is_digit_def digit_val_def)

lemma on_connect_init:
  "on_connect (init_gui E)
     = (init_gui E)\<lparr>client := Some (new_client ''192.168.1.49'' 5000), connect_button := Disabled,
          disconnect_button := Normal, set_button := Normal\<rparr>"
  by (simp add: on_connect_def Let_def client_init_gui host_var_init_gui py_strip_host
        port_var_init_gui)

lemma connected_state:
  "run_events E [Connect, ThreadStarted, ThreadConnected] (init_gui E)
     = (init_gui E)\<lparr>client := Some ((new_client ''192.168.1.49'' 5000)
                        \<lparr>sock := Some SockOpen, sock_file := Some SockOpen\<rparr>),
          connect_button := Disabled, disconnect_button := Normal, set_button := Normal,
          status_queue := [''Connecting to 192.168.1.49:5000 ...'', ''Connected.'']\<rparr>"
proof -
  have q: "status_queue (init_gui E) = []"
    by (simp add: init_gui_def update_slider_label_eq)
  have "run_events E [Connect, ThreadStarted, ThreadConnected] (init_gui E)
          = on_thread run_connected (on_thread run_started (on_connect (init_gui E)))"
    by (simp add: run_events_def)
  then show ?thesis
    unfolding on_connect_init
    by (simp add: on_thread_def run_started_def run_connected_def new_client_def q py_str_def
          nat_str.simps digit_char_def)
qed

lemma adjusting_connected_state:
  "run_events E [Connect, ThreadStarted, ThreadConnected, UserMove 60 ''60.0''] (init_gui E)
     = user_move E 60 ''60.0'' (run_events E [Connect, ThreadStarted, ThreadConnected] (init_gui E))"
  by (simp add: run_events_def)

lemma example_outcome:
  assumes "hist_rel g rs"
  shows "line_outcome py ''RPM: 23.45 | SP: 50.0 | STATE: 0'' g
           = Parsed \<lparr>rpm = Fin False 2345 2, setpoint = Fin False 500 1, stateCode = Some 0,
                     stateLabel = ''0''\<rparr>"
    and "line_outcome py ''RPM: 23.45 | SP: 50.0 | STATE: 1'' g
           = Parsed \<lparr>rpm = Fin False 2345 2, setpoint = Fin False 500 1, stateCode = Some 1,
                     stateLabel = ''1''\<rparr>"
  using status_line_outcome [of "''23.45''" "''50.0''" "''0''" py "Fin False 2345 2"
          "Fin False 500 1" "''0''" "[]" g rs]
        status_line_outcome [of "''23.45''" "''50.0''" "''1''" py "Fin False 2345 2"
          "Fin False 500 1" "''1''" "[]" g rs] assms
  by (simp_all add: token_examples py_fields dec_of_str_examples dec_round_examples label_examples
        status_line_def del: One_nat_def)

lemma example_line_state:
  "handle_device_line py ''RPM: 23.45 | SP: 50.0 | STATE: 0'' (init_gui py)
     = (init_gui py)\<lparr>console := [''RPM: 23.45 | SP: 50.0 | STATE: 0'' @ [CHR 0x0A]],
          temp_var := dec_fmt 2 (Fin False 2345 2) @ '' '',
          sp_var := dec_fmt 1 (Fin False 500 1) @ '' '',
          current_sp_value := PFloat (Fin False 500 1),
          sp_slider_var := 50, ignore_slider_change := False,
          sp_slider_label_var := ''SP to set: '' @ dec_fmt 1 (Fin False 500 1) @ '' RPM'',
          state_var := ''0'', set_button := Disabled,
          sample_count := 1, sample_indices := [1],
          temp_history := [Fin False 2345 2], sp_history := [Fin False 500 1]\<rparr>"
proof -
  have h: "hist_rel (init_gui py) []" using init_inv [of py] by simp
  have c: "console (init_gui py) = []" by (simp add: init_gui_def update_slider_label_eq)
  show ?thesis
    unfolding handle_line_parsed(1) [OF h example_outcome(1) [OF h]]
    by (simp add: init_gui_fields client_init_gui py_fields dec_round_examples last_n_def c
          del: One_nat_def)
qed

lemma accepted_replicate:
  assumes "hist_rel g rs"
  shows "accepted py (replicate n (DeviceLine ''RPM: 23.45 | SP: 50.0 | STATE: 0'')) g
           = replicate n \<lparr>rpm = Fin False 2345 2, setpoint = Fin False 500 1, stateCode = Some 0,
                            stateLabel = ''0''\<rparr>"
  using assms
proof (induction n arbitrary: g rs)
  case 0
  then show ?case by simp
next
  case (Suc n)
  note o = example_outcome(1) [OF Suc.prems]
  have "hist_rel (handle_device_line py ''RPM: 23.45 | SP: 50.0 | STATE: 0'' g)
          (rs @ [\<lparr>rpm = Fin False 2345 2, setpoint = Fin False 500 1, stateCode = Some 0,
                   stateLabel = ''0''\<rparr>])"
    using handle_line_hist [OF Suc.prems, of py "''RPM: 23.45 | SP: 50.0 | STATE: 0''"] o by simp
  from Suc.IH [OF this] show ?case using o by simp
qed

lemma stripped_status_line_parts:
  assumes "token a" "token b" "CHR ''|'' \<notin> set lbl"
      and "py_strip l = py_strip (status_line a b lbl)"
  shows "handle_full E l g
           = handle_parts E [''RPM: '' @ a, ''SP: '' @ b, ''STATE:'' @ py_rstrip ('' '' @ lbl)]
               (append_log (l @ [CHR 0x0A]) g)"
  using startswith_status_line [of a b lbl] parts_status_line [OF assms(1-3)]
  by (simp add: handle_full_def Let_def assms(4))

lemma dec_fmt_nan: "dec_fmt n NaN = ''nan''"
  by (simp add: dec_fmt_def)

lemma connected_fields:
  "user_adjusting_slider (run_events E [Connect, ThreadStarted, ThreadConnected] (init_gui E)) = False"
  "ignore_slider_change (run_events E [Connect, ThreadStarted, ThreadConnected] (init_gui E)) = False"
  "state_var (run_events E [Connect, ThreadStarted, ThreadConnected] (init_gui E)) = ''--''"
  "sample_indices (run_events E [Connect, ThreadStarted, ThreadConnected] (init_gui E)) = []"
  "timers (run_events E [Connect, ThreadStarted, ThreadConnected] (init_gui E)) = []"
  "slider_revert_after_id (run_events E [Connect, ThreadStarted, ThreadConnected] (init_gui E)) = None"
  "client (run_events E [Connect, ThreadStarted, ThreadConnected] (init_gui E)) \<noteq> None"
  unfolding connected_state
  by (simp_all add: init_gui_fields init_gui_def update_slider_label_eq)

lemma nan_line_state:
  fixes g :: "dec gui"
  assumes "hist_rel g rs" and "\<not> user_adjusting_slider g"
  shows "handle_full py ''RPM: 1.0 | SP: nan | STATE: 0'' g
           = (g\<lparr>console := console g @ [''RPM: 1.0 | SP: nan | STATE: 0'' @ [CHR 0x0A]],
                temp_var := ''1.00 '', sp_var := ''nan '',
                current_sp_value := PFloat NaN, ignore_slider_change := True\<rparr>,
              Raised RoundError)"
proof -
  have nb: "CHR ''|'' \<notin> set ''0''" by simp
  have l: "''RPM: 1.0 | SP: nan | STATE: 0'' = status_line ''1.0'' ''nan'' ''0''"
    by (simp add: status_line_def)
  show ?thesis
    unfolding l status_line_parts_eq [OF token_examples(1) token_examples(5) nb assms(1)]
    using assms(2)
    by (simp add: py_fields dec_of_str_examples dec_round_examples dec_fmt_examples dec_fmt_nan
          append_log_def Let_def del: One_nat_def)
qed

lemma empty_state_line_state:
  fixes g :: "dec gui"
  assumes "hist_rel g rs" and "\<not> user_adjusting_slider g"
  shows "handle_full py ''RPM: 1.0 | SP: 2.0 | STATE:'' g
           = (g\<lparr>console := console g @ [''RPM: 1.0 | SP: 2.0 | STATE:'' @ [CHR 0x0A]],
                temp_var := ''1.00 '', sp_var := ''2.0 '',
                current_sp_value := PFloat (Fin False 20 1),
                sp_slider_var := 2, ignore_slider_change := False,
                sp_slider_label_var := ''SP to set: 2.0 RPM'',
                state_var := []\<rparr>,
              Raised IndexError)"
proof -
  have nb: "CHR ''|'' \<notin> set []" by simp
  have s: "py_strip ''RPM: 1.0 | SP: 2.0 | STATE:'' = py_strip (status_line ''1.0'' ''2.0'' [])"
    unfolding strip_status_line by (simp add: strip_defs)
  have h: "hist_rel (append_log (''RPM: 1.0 | SP: 2.0 | STATE:'' @ [CHR 0x0A]) g) rs"
    using assms(1) by (simp add: append_log_fields)
  have f: "user_adjusting_slider (append_log t g) = user_adjusting_slider g" for t
    by (simp add: append_log_def)
  let ?parts = "[''RPM: '' @ ''1.0'', ''SP: '' @ ''2.0'', ''STATE:'' @ py_rstrip ('' '' @ [])]"
  have e0: "second_float py (?parts ! 0) = Inr (Fin False 10 1)"
    using second_float_field (1) [OF token_examples(1), of py]
    by (simp add: py_fields dec_of_str_examples del: One_nat_def)
  have e1: "second_float py (?parts ! 1) = Inr (Fin False 20 1)"
    using second_float_field (2) [OF token_examples(2), of py]
    by (simp add: py_fields dec_of_str_examples del: One_nat_def)
  have e2: "state_label (?parts ! 2) = []"
    using state_label_state [of "[]"] by (simp add: strip_defs)
  have k: "state_code [] = Inl IndexError" by (simp add: state_code_def py_split_def)
  have fm: "dec_fmt 1 (Fin False 20 1) = ''2.0''"
    by (simp add: dec_fmt_def pad_zeros_def nat_str.simps digit_char_def)
  show ?thesis
    unfolding stripped_status_line_parts [OF token_examples(1) token_examples(2) nb s]
      handle_parts_eq [OF h] e0 e1 e2 k
    using assms(2)
    by (simp add: f py_fields dec_round_examples dec_fmt_examples fm append_log_def Let_def
          del: One_nat_def)
qed

subsection \<open>Reading a status line\<close>

text \<open>
  What the handler does deliver.  For a line of the wire format whose two numeric tokens
  are accepted by \<open>float\<close> and whose STATE segment holds at least one token, received in
  a reachable state in which the user is adjusting the slider or the setpoint can be
  rounded to an integer, the handler reaches the end of its \<open>try\<close> block with \<open>temp_val\<close>
  and \<open>sp_val\<close> the floats of the two tokens, \<open>state_str\<close> the trimmed text after
  \<open>STATE:\<close>, and \<open>state_int\<close> what \<open>int\<close> makes of the first token of \<open>state_str\<close>
  (absent when \<open>int\<close> rejects it).
\<close>

lemma status_line_reading:
  assumes "token a" and "token b" and "CHR ''|'' \<notin> set lbl"
      and "float_of_str E a = Some x" and "float_of_str E b = Some y"
      and "py_split (py_strip lbl) = t # ts"
      and "g = run_events E evs (init_gui E)"
      and "user_adjusting_slider g \<or> int_round E y \<noteq> None"
  shows "line_outcome E (status_line a b lbl) g
           = Parsed \<lparr>rpm = x, setpoint = y, stateCode = py_int t, stateLabel = py_strip lbl\<rparr>"
proof -
  have h: "hist_rel g (accepted E evs (init_gui E))"
    using reachable_inv [of E evs] assms(7) by simp
  have k: "state_code (py_strip lbl) = Inr (py_int t)"
    using assms(6) by (simp add: state_code_def)
  show ?thesis
    unfolding line_outcome_def status_line_parts_eq [OF assms(1-3) h]
    using assms(4,5,8) k by (auto simp add: Let_def)
qed

lemma status_line_reading_example:
  "token ''23.45'' \<and> token ''50.0'' \<and> float_of_str py ''23.45'' = Some (Fin False 2345 2)
   \<and> float_of_str py ''50.0'' = Some (Fin False 500 1)
   \<and> int_round py (Fin False 500 1) \<noteq> None
   \<and> line_outcome py ''RPM: 23.45 | SP: 50.0 | STATE: 0'' (init_gui py)
       = Parsed \<lparr>rpm = Fin False 2345 2, setpoint = Fin False 500 1, stateCode = Some 0,
                 stateLabel = ''0''\<rparr>"
  using status_line_reading [of "''23.45''" "''50.0''" "''0''" py "Fin False 2345 2"
          "Fin False 500 1" "''0''" "[]" "init_gui py" "[]"]
  by (simp add: token_examples py_fields dec_of_str_examples dec_round_examples label_examples
        run_events_def status_line_def del: One_nat_def)

text \<open>
  Claim C1 at the line \<open>RPM: 1.0 | SP: nan | STATE: 0\<close>, received after connecting while
  the user is not adjusting the slider.  Both numeric tokens are accepted by \<open>float\<close>, so
  the line has the wire format, but no reading comes out of it: the RPM and setpoint
  displays and the current setpoint are rewritten, \<open>int(round(...))\<close> raises on the
  setpoint, the state display keeps its old text, nothing is appended to the history, and
  \<open>ignore_slider_change\<close> is left set.  The line \<open>RPM: 1.0 | SP: 2.0 | STATE:\<close> is dropped
  too, after the displays, the slider and the state display have been rewritten:
  \<open>split()[0]\<close> raises \<open>IndexError\<close>, which the inner \<open>except ValueError\<close> lets through.
\<close>

theorem nan_setpoint_no_reading:
  fixes g :: "dec gui"
  defines "g \<equiv> run_events py [Connect, ThreadStarted, ThreadConnected] (init_gui py)"
  defines "g' \<equiv> handle_device_line py ''RPM: 1.0 | SP: nan | STATE: 0'' g"
  defines "g'' \<equiv> handle_device_line py ''RPM: 1.0 | SP: 2.0 | STATE:'' g"
  shows "float_of_str py ''1.0'' = Some (Fin False 10 1) \<and> float_of_str py ''nan'' = Some NaN
       \<and> line_outcome py ''RPM: 1.0 | SP: nan | STATE: 0'' g = Raised RoundError
       \<and> temp_var g' = ''1.00 '' \<and> sp_var g' = ''nan '' \<and> current_sp_value g' = PFloat NaN
       \<and> state_var g' = ''--'' \<and> sample_indices g' = []
       \<and> \<not> ignore_slider_change g \<and> ignore_slider_change g'
       \<and> line_outcome py ''RPM: 1.0 | SP: 2.0 | STATE:'' g = Raised IndexError
       \<and> temp_var g'' = ''1.00 '' \<and> sp_var g'' = ''2.0 '' \<and> sp_slider_var g'' = 2
       \<and> state_var g'' = [] \<and> sample_indices g'' = []"
proof -
  have h: "hist_rel g (accepted py [Connect, ThreadStarted, ThreadConnected] (init_gui py))"
    using reachable_inv [of py "[Connect, ThreadStarted, ThreadConnected]"] by (simp add: g_def)
  have a: "\<not> user_adjusting_slider g" by (simp add: g_def connected_fields)
  have f: "state_var g = ''--''" "sample_indices g = []" "\<not> ignore_slider_change g"
    by (simp_all add: g_def connected_fields)
  show ?thesis
    unfolding g'_def g''_def line_outcome_def handle_device_line_def
      nan_line_state [OF h a] empty_state_line_state [OF h a]
    using f by (simp add: py_fields dec_of_str_examples del: One_nat_def)
qed

subsection \<open>Lines that are dropped\<close>

text \<open>
  Claim C2 at the line \<open>RPM: 1.0 | SP: abc | STATE: 0\<close>, received in the initial state:
  the setpoint token is rejected by \<open>float\<close> and the handler leaves by \<open>ValueError\<close>, but
  the RPM display has already been rewritten from \<open>--.- RPM\<close> to \<open>1.00\<close>.
\<close>

theorem bad_setpoint_changes_rpm_display:
  "line_outcome py ''RPM: 1.0 | SP: abc | STATE: 0'' (init_gui py) = Raised ValueError
   \<and> temp_var (init_gui py) = ''--.- RPM''
   \<and> temp_var (handle_device_line py ''RPM: 1.0 | SP: abc | STATE: 0'' (init_gui py)) = ''1.00 ''"
proof -
  have h: "hist_rel (init_gui py) []" using init_inv [of py] by simp
  have nb: "CHR ''|'' \<notin> set ''0''" by simp
  have l: "''RPM: 1.0 | SP: abc | STATE: 0'' = status_line ''1.0'' ''abc'' ''0''"
    by (simp add: status_line_def)
  have "handle_full py (status_line ''1.0'' ''abc'' ''0'') (init_gui py)
          = ((append_log (status_line ''1.0'' ''abc'' ''0'' @ [CHR 0x0A]) (init_gui py))
               \<lparr>temp_var := dec_fmt 2 (Fin False 10 1) @ '' ''\<rparr>, Raised ValueError)"
    unfolding status_line_parts_eq [OF token_examples(1) token_examples(6) nb h]
    by (simp add: py_fields dec_of_str_examples Let_def del: One_nat_def)
  then show ?thesis
    unfolding l line_outcome_def handle_device_line_def
    by (simp add: dec_fmt_examples init_gui_fields del: One_nat_def)
qed

subsection \<open>The bounded history\<close>

text \<open>
  Claim C3.  In every reachable state the three history lists have the same length,
  at most 300, and hold the last 300 of the readings accepted so far: the sample
  numbers counted from 1, the rpm values and the setpoints.  After 301 accepted
  readings they hold the readings 2 to 301: sample 1 is gone, sample 301 is there.
\<close>

theorem history_bounded:
  fixes E :: "'f env" and evs
  defines "g \<equiv> run_events E evs (init_gui E)"
  defines "rs \<equiv> accepted E evs (init_gui E)"
  shows "length (sample_indices g) \<le> 300
       \<and> length (temp_history g) = length (sample_indices g)
       \<and> length (sp_history g) = length (sample_indices g)
       \<and> sample_indices g = last_n 300 (map (\<lambda>i. int i + 1) [0 ..< length rs])
       \<and> temp_history g = last_n 300 (map rpm rs)
       \<and> sp_history g = last_n 300 (map setpoint rs)
       \<and> (length rs = 301 \<longrightarrow>
            1 \<notin> set (sample_indices g) \<and> 301 \<in> set (sample_indices g)
          \<and> temp_history g = tl (map rpm rs) \<and> sp_history g = tl (map setpoint rs))"
proof -
  have h: "hist_rel g rs" using reachable_inv [of E evs] by (simp add: g_def rs_def)
  have a: "sample_indices g = last_n 300 (map (\<lambda>i. int i + 1) [0 ..< length rs])"
    "temp_history g = last_n 300 (map rpm rs)" "sp_history g = last_n 300 (map setpoint rs)"
    using h by (simp_all add: hist_rel_def)
  have b: "length (sample_indices g) \<le> 300" "length (temp_history g) = length (sample_indices g)"
    "length (sp_history g) = length (sample_indices g)"
    unfolding a by (simp_all add: length_last_n)
  have c: "1 \<notin> set (sample_indices g) \<and> 301 \<in> set (sample_indices g)
          \<and> temp_history g = tl (map rpm rs) \<and> sp_history g = tl (map setpoint rs)"
    if "length rs = 301"
  proof -
    have "sample_indices g = map (\<lambda>i. int i + 1) [1 ..< 301]"
      unfolding a using that by (simp add: last_n_def drop_map)
    moreover have "(1::int) \<notin> set (map (\<lambda>i. int i + 1) [1 ..< 301])" by auto
    moreover have "(301::int) \<in> set (map (\<lambda>i. int i + 1) [1 ..< 301])"
      by (simp add: image_iff)
    ultimately show ?thesis unfolding a(2,3) using that by (simp add: last_n_301)
  qed
  show ?thesis using a b c by blast
qed

theorem history_bounded_witness:
  "length (accepted py (replicate 301 (DeviceLine ''RPM: 23.45 | SP: 50.0 | STATE: 0''))
      (init_gui py)) = 301
   \<and> length (sample_indices (run_events py
        (replicate 301 (DeviceLine ''RPM: 23.45 | SP: 50.0 | STATE: 0'')) (init_gui py))) = 300
   \<and> 1 \<notin> set (sample_indices (run_events py
        (replicate 301 (DeviceLine ''RPM: 23.45 | SP: 50.0 | STATE: 0'')) (init_gui py)))
   \<and> 301 \<in> set (sample_indices (run_events py
        (replicate 301 (DeviceLine ''RPM: 23.45 | SP: 50.0 | STATE: 0'')) (init_gui py)))"
proof -
  have h: "hist_rel (init_gui py) []" using init_inv [of py] by simp
  have l: "length (accepted py (replicate 301 (DeviceLine ''RPM: 23.45 | SP: 50.0 | STATE: 0''))
      (init_gui py)) = 301"
    unfolding accepted_replicate [OF h] by simp
  let ?evs = "replicate 301 (DeviceLine ''RPM: 23.45 | SP: 50.0 | STATE: 0'')"
  note t = history_bounded [of py ?evs]
  have c: "1 \<notin> set (sample_indices (run_events py ?evs (init_gui py)))
         \<and> 301 \<in> set (sample_indices (run_events py ?evs (init_gui py)))"
    using t l by blast
  have e: "sample_indices (run_events py ?evs (init_gui py))
             = last_n 300 (map (\<lambda>i. int i + 1) [0 ..< length (accepted py ?evs (init_gui py))])"
    using t by blast
  have d: "length (sample_indices (run_events py ?evs (init_gui py))) = 300"
    unfolding e l by (simp add: length_last_n)
  show ?thesis using l c d by blast
qed

subsection \<open>Confirming a setpoint\<close>

text \<open>
  Claim C4.  In a reachable state in which the user is adjusting the slider and the
  client's socket is open, pressing Set with a successful write sends exactly one
  message, the slider's value \<open>V\<close> in decimal followed by a newline; it cancels the
  pending revert callback, makes \<open>V\<close> the current setpoint and shows it, and ends the
  adjustment.
\<close>

theorem confirm_sends_candidate:
  assumes "g = run_events E evs (init_gui E)" and "user_adjusting_slider g"
      and "client g = Some c" and "sock c = Some SockOpen"
  shows "on_set_sp E WriteOk g =
           g\<lparr>client := Some (c\<lparr>sent := sent c @ [py_str (sp_slider_var g) @ [CHR 0x0A]]\<rparr>),
             status_queue := status_queue g @ [''Sent setpoint: '' @ py_str (sp_slider_var g)],
             current_sp_value := PInt (sp_slider_var g),
             sp_var := fmt_fixed E 1 (float_of_int E (sp_slider_var g)) @ '' C'',
             sp_slider_label_var :=
               ''SP to set: '' @ fmt_fixed E 1 (float_of_int E (sp_slider_var g)) @ '' RPM'',
             user_adjusting_slider := False,
             timers := [],
             slider_revert_after_id := None\<rparr>"
proof -
  have t: "timer_inv g" using reachable_inv [of E evs] assms(1) by simp
  have c: "(case slider_revert_after_id g of None \<Rightarrow> timers g
          | Some i \<Rightarrow> filter (\<lambda>t. fst t \<noteq> i) (timers g)) = []"
    using timer_inv_cancel [OF t] .
  show ?thesis
    unfolding on_set_sp_eq c using assms(3,4)
    by (simp add: send_setpoint_def sendall_def)
qed

theorem confirm_sends_candidate_witness:
  "user_adjusting_slider (run_events py [Connect, ThreadStarted, ThreadConnected, UserMove 60 ''60.0''] (init_gui py))
   \<and> map_option sent (client (on_set_sp py WriteOk
        (run_events py [Connect, ThreadStarted, ThreadConnected, UserMove 60 ''60.0''] (init_gui py))))
       = Some [''60'' @ [CHR 0x0A]]
   \<and> current_sp_value (on_set_sp py WriteOk
        (run_events py [Connect, ThreadStarted, ThreadConnected, UserMove 60 ''60.0''] (init_gui py))) = PInt 60
   \<and> timers (on_set_sp py WriteOk
        (run_events py [Connect, ThreadStarted, ThreadConnected, UserMove 60 ''60.0''] (init_gui py))) = []
   \<and> \<not> user_adjusting_slider (on_set_sp py WriteOk
        (run_events py [Connect, ThreadStarted, ThreadConnected, UserMove 60 ''60.0''] (init_gui py)))"
proof -
  let ?g = "run_events py [Connect, ThreadStarted, ThreadConnected, UserMove 60 ''60.0''] (init_gui py)"
  let ?c = "(new_client ''192.168.1.49'' 5000)\<lparr>sock := Some SockOpen, sock_file := Some SockOpen\<rparr>"
  have f: "user_adjusting_slider ?g" "client ?g = Some ?c" "sp_slider_var ?g = 60"
    unfolding adjusting_connected_state connected_state
    by (simp_all add: user_move_def on_slider_changed_eq init_gui_fields)
  have s: "sock ?c = Some SockOpen" "sent ?c = []" by (simp_all add: new_client_def)
  show ?thesis
    using confirm_sends_candidate [of ?g py "[Connect, ThreadStarted, ThreadConnected, UserMove 60 ''60.0'']" ?c,
            OF refl f(1) f(2) s(1)] f s
    by (simp add: py_str_examples)
qed

subsection \<open>Reverting after the timeout\<close>

text \<open>
  Claim C5.  In a reachable state with a current setpoint that rounds to \<open>m\<close>, let the
  user move the slider to \<open>n\<close> and let \<open>dt\<close> milliseconds pass without a confirmation.
  The revert callback does nothing before 5000 ms.  From 5000 ms on it resets the slider
  to \<open>m\<close>, whatever \<open>n\<close> was, shows \<open>m\<close>'s setpoint in the slider label, forgets the
  callback and ends the adjustment.  The resulting state has no pending callback and is
  not adjusting also when the toolkit runs the slider callback on the program's own
  write, so the reset does not start a new adjustment.
\<close>

theorem timeout_reverts_slider:
  fixes E :: "'f env" and evs n s dt m g
  assumes "g = run_events E evs (init_gui E)" and "\<not> ignore_slider_change g"
      and "py_int_round E (current_sp_value g) = Inr m"
  defines "g1 \<equiv> step E (Advance dt) (user_move E n s g)"
  shows "user_adjusting_slider g1 \<and> sp_slider_var g1 = n
       \<and> (dt < 5000 \<longrightarrow> timer_fires E (next_after_id g) g1 = g1)
       \<and> (5000 \<le> dt \<longrightarrow>
            timer_fires E (next_after_id g) g1
              = g1\<lparr>timers := [], slider_revert_after_id := None, user_adjusting_slider := False,
                   sp_slider_var := m, ignore_slider_change := False,
                   sp_slider_label_var :=
                     (case to_float E (current_sp_value g) of
                        Inl _ \<Rightarrow> ''SP to set: -- RPM''
                      | Inr x \<Rightarrow> ''SP to set: '' @ fmt_fixed E 1 x @ '' RPM'')\<rparr>)"
proof -
  have t: "timer_inv g" using reachable_inv [of E evs] assms(1) by simp
  have ne: "current_sp_value g \<noteq> PNone" using assms(3) by (auto simp add: py_int_round_def)
  have g1: "g1 = g\<lparr>sp_slider_var := n,
                   sp_slider_label_var :=
                     (case to_float E (PStr s) of Inl _ \<Rightarrow> ''SP to set: -- RPM''
                      | Inr x \<Rightarrow> ''SP to set: '' @ fmt_fixed E 1 x @ '' RPM''),
                   user_adjusting_slider := True,
                   timers := [(next_after_id g, clock g + 5000)],
                   next_after_id := next_after_id g + 1,
                   slider_revert_after_id := Some (next_after_id g),
                   clock := clock g + dt\<rparr>"
    using assms(2) t
    by (cases "slider_revert_after_id g")
       (simp_all add: g1_def user_move_def on_slider_changed_eq timer_inv_def single_timer_filter)
  show ?thesis
    unfolding g1 using ne assms(3)
    by (simp add: timer_fires_def tk_after_cancel_def revert_eq)
qed

theorem timeout_reverts_slider_witness:
  "py_int_round py (current_sp_value
       (run_events py [DeviceLine ''RPM: 23.45 | SP: 50.0 | STATE: 0''] (init_gui py))) = Inr 50
   \<and> sp_slider_var (step py (Advance 5000) (user_move py 80 ''80.0''
       (run_events py [DeviceLine ''RPM: 23.45 | SP: 50.0 | STATE: 0''] (init_gui py)))) = 80
   \<and> sp_slider_var (timer_fires py 0 (step py (Advance 5000) (user_move py 80 ''80.0''
       (run_events py [DeviceLine ''RPM: 23.45 | SP: 50.0 | STATE: 0''] (init_gui py))))) = 50
   \<and> \<not> user_adjusting_slider (timer_fires py 0 (step py (Advance 5000) (user_move py 80 ''80.0''
       (run_events py [DeviceLine ''RPM: 23.45 | SP: 50.0 | STATE: 0''] (init_gui py)))))
   \<and> timers (timer_fires py 0 (step py (Advance 5000) (user_move py 80 ''80.0''
       (run_events py [DeviceLine ''RPM: 23.45 | SP: 50.0 | STATE: 0''] (init_gui py))))) = []"
proof -
  let ?g = "run_events py [DeviceLine ''RPM: 23.45 | SP: 50.0 | STATE: 0''] (init_gui py)"
  have g: "?g = handle_device_line py ''RPM: 23.45 | SP: 50.0 | STATE: 0'' (init_gui py)"
    by (simp add: run_events_def)
  have f: "\<not> ignore_slider_change ?g" "current_sp_value ?g = PFloat (Fin False 500 1)"
    "next_after_id ?g = 0"
    unfolding g example_line_state by (simp_all add: init_gui_fields)
  have r: "py_int_round py (current_sp_value ?g) = Inr 50"
    unfolding f(2) by (simp add: py_int_round_def py_fields dec_round_examples del: One_nat_def)
  show ?thesis
    using timeout_reverts_slider [of ?g py "[DeviceLine ''RPM: 23.45 | SP: 50.0 | STATE: 0'']"
            50 5000 80 "''80.0''", OF refl f(1) r] r f(3)
    by simp
qed

subsection \<open>One revert timer\<close>

text \<open>
  In every reachable state at most one revert callback is pending.  Two user moves of
  the slider, \<open>dt\<close> milliseconds apart, made when slider callbacks are not being ignored,
  leave exactly one pending callback: the one scheduled by the second move, due 5000 ms
  after it, and it is the one the controller remembers.
\<close>

lemma single_revert_timer:
  fixes E :: "'f env" and evs n1 s1 dt n2 s2
  defines "g \<equiv> run_events E evs (init_gui E)"
  defines "g' \<equiv> user_move E n2 s2 (step E (Advance dt) (user_move E n1 s1 g))"
  shows "length (timers g) \<le> 1
       \<and> (\<not> ignore_slider_change g \<longrightarrow>
            timers g' = [(next_after_id g + 1, clock g + dt + 5000)]
          \<and> slider_revert_after_id g' = Some (next_after_id g + 1))"
proof -
  have t: "timer_inv g" using reachable_inv [of E evs] by (simp add: g_def)
  show ?thesis
  proof (cases "slider_revert_after_id g")
    case None
    then show ?thesis using timer_inv_length [OF t] t
      by (simp add: g'_def user_move_def on_slider_changed_eq timer_inv_def)
  next
    case (Some i)
    then show ?thesis using timer_inv_length [OF t] t
      by (simp add: g'_def user_move_def on_slider_changed_eq timer_inv_def single_timer_filter)
  qed
qed

lemma single_revert_timer_example:
  "\<not> ignore_slider_change (run_events py [] (init_gui py))
   \<and> timers (user_move py 60 ''60.0'' (step py (Advance 1000)
        (user_move py 40 ''40.0'' (run_events py [] (init_gui py))))) = [(1, 6000)]"
  using single_revert_timer [where E = py and evs = "[]" and ?n1.0 = 40 and ?s1.0 = "''40.0''"
          and dt = 1000 and ?n2.0 = 60 and ?s2.0 = "''60.0''"]
  by (simp add: run_events_def init_gui_fields)

text \<open>
  Claim C6 after the line \<open>RPM: 1.0 | SP: nan | STATE: 0\<close> has been handled while the user
  was not adjusting.  The exception in the slider synchronisation leaves
  \<open>ignore_slider_change\<close> set, so \<open>on_slider_changed\<close> returns at once for every later
  move of the user: two moves one second apart schedule no revert callback at all, the
  controller remembers none, and it does not regard the user as adjusting.
\<close>

theorem moves_after_nan_line_schedule_no_timer:
  fixes g :: "dec gui"
  defines "g \<equiv> run_events py
     [Connect, ThreadStarted, ThreadConnected, DeviceLine ''RPM: 1.0 | SP: nan | STATE: 0'',
      UserMove 40 ''40.0'', Advance 1000, UserMove 60 ''60.0''] (init_gui py)"
  shows "timers g = [] \<and> slider_revert_after_id g = None \<and> \<not> user_adjusting_slider g
       \<and> ignore_slider_change g \<and> sp_slider_var g = 60"
proof -
  let ?g0 = "run_events py [Connect, ThreadStarted, ThreadConnected] (init_gui py)"
  have h: "hist_rel ?g0 (accepted py [Connect, ThreadStarted, ThreadConnected] (init_gui py))"
    using reachable_inv [of py "[Connect, ThreadStarted, ThreadConnected]"] by simp
  have a: "\<not> user_adjusting_slider ?g0" by (simp add: connected_fields)
  have "g = user_move py 60 ''60.0'' (step py (Advance 1000) (user_move py 40 ''40.0''
              (handle_device_line py ''RPM: 1.0 | SP: nan | STATE: 0'' ?g0)))"
    by (simp add: g_def run_events_def)
  then show ?thesis
    unfolding handle_device_line_def nan_line_state [OF h a]
    by (simp add: user_move_def on_slider_changed_eq connected_fields)
qed

subsection \<open>The Set button follows the state code\<close>

text \<open>
  Claim C7, as amended.  When the handler reaches the end of its \<open>try\<close> block in a
  reachable state, the Set button is disabled for state code 1 and enabled for state
  code 0 provided the controller holds a client; for any other or absent code, and
  whenever the controller holds no client, the button is left as it was.
\<close>

theorem state_code_gates_set_button:
  assumes "g = run_events E evs (init_gui E)" and "line_outcome E l g = Parsed r"
  shows "set_button (handle_device_line E l g) =
           (if client g \<noteq> None \<and> stateCode r = Some 1 then Disabled
            else if client g \<noteq> None \<and> stateCode r = Some 0 then Normal
            else set_button g)"
proof -
  have h: "hist_rel g (accepted E evs (init_gui E))"
    using reachable_inv [of E evs] assms(1) by simp
  show ?thesis
    unfolding handle_line_parsed(1) [OF h assms(2)] by simp
qed

theorem state_code_gates_set_button_witness:
  "line_outcome py ''RPM: 23.45 | SP: 50.0 | STATE: 1''
       (run_events py [Connect, ThreadStarted, ThreadConnected] (init_gui py))
     = Parsed \<lparr>rpm = Fin False 2345 2, setpoint = Fin False 500 1, stateCode = Some 1,
               stateLabel = ''1''\<rparr>
   \<and> set_button (run_events py [Connect, ThreadStarted, ThreadConnected] (init_gui py)) = Normal
   \<and> set_button (handle_device_line py ''RPM: 23.45 | SP: 50.0 | STATE: 1''
         (run_events py [Connect, ThreadStarted, ThreadConnected] (init_gui py))) = Disabled"
proof -
  let ?g = "run_events py [Connect, ThreadStarted, ThreadConnected] (init_gui py)"
  have h: "hist_rel ?g (accepted py [Connect, ThreadStarted, ThreadConnected] (init_gui py))"
    using reachable_inv [of py "[Connect, ThreadStarted, ThreadConnected]"] by simp
  note o = example_outcome(2) [OF h]
  have c: "client ?g \<noteq> None" "set_button ?g = Normal" by (simp_all add: connected_state)
  show ?thesis
    using state_code_gates_set_button [of ?g py "[Connect, ThreadStarted, ThreadConnected]", OF refl o] o c
    by simp
qed

text \<open>
  Claim C7 as stated promises that state code 0 enables the Set button.  A line still
  queued when the user disconnects is handled without a client: it is parsed, its state
  code is 0, and the button stays disabled.
\<close>

theorem ready_line_after_disconnect_keeps_button_disabled:
  "line_outcome py ''RPM: 23.45 | SP: 50.0 | STATE: 0''
       (run_events py [Connect, ThreadStarted, ThreadConnected, Disconnect] (init_gui py))
     = Parsed \<lparr>rpm = Fin False 2345 2, setpoint = Fin False 500 1, stateCode = Some 0,
               stateLabel = ''0''\<rparr>
   \<and> set_button (handle_device_line py ''RPM: 23.45 | SP: 50.0 | STATE: 0''
         (run_events py [Connect, ThreadStarted, ThreadConnected, Disconnect] (init_gui py))) = Disabled"
proof -
  let ?g = "run_events py [Connect, ThreadStarted, ThreadConnected, Disconnect] (init_gui py)"
  have h: "hist_rel ?g (accepted py [Connect, ThreadStarted, ThreadConnected, Disconnect] (init_gui py))"
    using reachable_inv [of py "[Connect, ThreadStarted, ThreadConnected, Disconnect]"] by simp
  note o = example_outcome(1) [OF h]
  have c: "client ?g = None" "set_button ?g = Disabled"
    by (simp_all add: run_events_def on_disconnect_def Let_def split: option.splits)
  show ?thesis
    unfolding handle_line_parsed(1) [OF h o] using o c by simp
qed

subsection \<open>Port validation\<close>

text \<open>
  Claim C8, as amended.  \<open>on_connect\<close> checks the port text with \<open>int(...)\<close> only: when no
  connection is active and the trimmed text is not an integer literal, the error box
  "Port must be an integer." is shown and nothing else changes (no client is created);
  when it is an integer literal, of either sign, a client for that port is created and no
  box is shown.
\<close>

theorem on_connect_port_check:
  assumes "client g = None"
  shows "(py_int (py_strip (port_var g)) = None \<longrightarrow>
            on_connect g = g\<lparr>dialogs := dialogs g @ [ShowError ''Invalid port'' ''Port must be an integer.'']\<rparr>)
       \<and> (\<forall>p. py_int (py_strip (port_var g)) = Some p \<longrightarrow>
            client (on_connect g) = Some (new_client (py_strip (host_var g)) p)
          \<and> dialogs (on_connect g) = dialogs g)"
  using assms by (simp add: on_connect_def Let_def)

theorem on_connect_port_check_witness:
  "client ((init_gui py)\<lparr>port_var := ''50x''\<rparr>) = None
   \<and> on_connect ((init_gui py)\<lparr>port_var := ''50x''\<rparr>)
       = (init_gui py)\<lparr>port_var := ''50x'',
            dialogs := [ShowError ''Invalid port'' ''Port must be an integer.'']\<rparr>
   \<and> client (on_connect ((init_gui py)\<lparr>port_var := ''-5''\<rparr>))
       = Some (new_client ''192.168.1.49'' (- 5))"
  using on_connect_port_check [of "(init_gui py)\<lparr>port_var := ''50x''\<rparr>"]
        on_connect_port_check [of "(init_gui py)\<lparr>port_var := ''-5''\<rparr>"]
  by (simp add: client_init_gui host_var_init_gui dialogs_init_gui py_strip_host py_int_minus5 py_int_abc
        py_strip_def py_lstrip_def py_rstrip_def is_space_def)

text \<open>
  Claim C8 as stated requires a positive integer.  The port text \<open>-5\<close> is accepted: a
  client for port \<open>-5\<close> is created and no error is shown.
\<close>

theorem nonpositive_port_accepted:
  "client (on_connect ((init_gui py)\<lparr>port_var := ''-5''\<rparr>)) = Some (new_client ''192.168.1.49'' (- 5))
   \<and> dialogs (on_connect ((init_gui py)\<lparr>port_var := ''-5''\<rparr>)) = []"
  by (simp add: on_connect_def Let_def client_init_gui host_var_init_gui dialogs_init_gui py_strip_host py_int_minus5
        py_strip_def py_lstrip_def py_rstrip_def is_space_def)

subsection \<open>Sending without a connection\<close>

text \<open>
  Claim C9, as amended.  \<open>send_setpoint\<close> reports "Not connected." and writes nothing
  exactly when the socket field is unset, before or after \<open>close\<close>.  After \<open>close\<close> on a
  client whose socket had been opened the field still holds the closed socket: the write
  raises, nothing is written and "Send error: ..." is reported.  A failed write on an open
  socket is reported as "Send error: ..." and leaves the client, with its stop flag and
  socket, as it was.
\<close>

theorem send_setpoint_unconnected:
  "(sock c = None \<longrightarrow>
      send_setpoint v wr (c, q) = (c, q @ [''Not connected.''])
    \<and> send_setpoint v wr (close c, q) = (close c, q @ [''Not connected.'']))
   \<and> (sock c \<noteq> None \<longrightarrow>
      send_setpoint v wr (close c, q)
        = (close c, q @ [''Send error: [Errno 9] Bad file descriptor'']))
   \<and> (sock c = Some SockOpen \<longrightarrow>
      send_setpoint v (WriteErr e) (c, q) = (c, q @ [''Send error: '' @ e]))"
  by (auto simp add: send_setpoint_def sendall_def close_def)

theorem send_setpoint_unconnected_witness:
  "send_setpoint 50 WriteOk (new_client ''h'' 5000, []) = (new_client ''h'' 5000, [''Not connected.''])
   \<and> send_setpoint 50 WriteOk (close (fst (run_connected (new_client ''h'' 5000, []))), [])
        = (close (fst (run_connected (new_client ''h'' 5000, []))),
           [''Send error: [Errno 9] Bad file descriptor''])
   \<and> send_setpoint 50 (WriteErr ''Broken pipe'') (fst (run_connected (new_client ''h'' 5000, [])), [])
        = (fst (run_connected (new_client ''h'' 5000, [])), [''Send error: Broken pipe''])"
  using send_setpoint_unconnected [of "new_client ''h'' 5000" 50 WriteOk "[]" "''x''"]
        send_setpoint_unconnected [of "fst (run_connected (new_client ''h'' 5000, []))" 50 WriteOk "[]" "''Broken pipe''"]
  by (simp add: new_client_def run_connected_def)

text \<open>
  Claim C9 as stated expects "Not connected." after \<open>close\<close>.  On a client that had
  connected, sending after \<open>close\<close> reports a send error instead.
\<close>

theorem send_after_close_not_reported_unconnected:
  "snd (send_setpoint 50 WriteOk (close (fst (run_connected (new_client ''h'' 5000, []))), []))
     = [''Send error: [Errno 9] Bad file descriptor'']
   \<and> snd (send_setpoint 50 WriteOk (close (fst (run_connected (new_client ''h'' 5000, []))), []))
     \<noteq> [''Not connected.'']"
  by (simp add: send_setpoint_def sendall_def close_def run_connected_def new_client_def)

subsection \<open>Readings while the user adjusts\<close>

text \<open>
  Claim C10.  When a line is parsed to the end in a reachable state in which the user
  is adjusting the slider, the current setpoint and the setpoint display are overwritten
  with the line's setpoint, while the slider, its label, the adjusting flag and the
  pending revert callback stay as they are.  When that callback then fires, the slider
  is reset to the rounded setpoint of this line.
\<close>

theorem reading_while_adjusting:
  fixes E :: "'f env" and evs l r g
  assumes "g = run_events E evs (init_gui E)" and "user_adjusting_slider g"
      and "line_outcome E l g = Parsed r"
  defines "g' \<equiv> handle_device_line E l g"
  shows "current_sp_value g' = PFloat (setpoint r)
       \<and> sp_var g' = fmt_fixed E 1 (setpoint r) @ '' ''
       \<and> sp_slider_var g' = sp_slider_var g
       \<and> sp_slider_label_var g' = sp_slider_label_var g
       \<and> user_adjusting_slider g'
       \<and> timers g' = timers g
       \<and> (\<exists>i d. timers g = [(i, d)] \<and> slider_revert_after_id g' = Some i
            \<and> (\<forall>dt m. d \<le> clock g + dt \<longrightarrow> int_round E (setpoint r) = Some m \<longrightarrow>
                  sp_slider_var (timer_fires E i (step E (Advance dt) g')) = m
                \<and> \<not> user_adjusting_slider (timer_fires E i (step E (Advance dt) g'))))"
proof -
  have inv: "hist_rel g (accepted E evs (init_gui E))" "timer_inv g"
    using reachable_inv [of E evs] assms(1) by simp_all
  obtain i d where id: "slider_revert_after_id g = Some i" "timers g = [(i, d)]"
    using timer_inv_adjusting [OF inv(2) assms(2)] by blast
  have g': "g' = g\<lparr>console := console g @ [l @ [CHR 0x0A]],
              temp_var := fmt_fixed E 2 (rpm r) @ '' '', sp_var := fmt_fixed E 1 (setpoint r) @ '' '',
              current_sp_value := PFloat (setpoint r),
              state_var := stateLabel r,
              set_button := (if client g \<noteq> None \<and> stateCode r = Some 1 then Disabled
                      else if client g \<noteq> None \<and> stateCode r = Some 0 then Normal
                      else set_button g),
              sample_count := int (length (accepted E evs (init_gui E))) + 1,
              sample_indices := last_n 300 (map (\<lambda>i. int i + 1) [0 ..< Suc (length (accepted E evs (init_gui E)))]),
              temp_history := last_n 300 (map rpm (accepted E evs (init_gui E)) @ [rpm r]),
              sp_history := last_n 300 (map setpoint (accepted E evs (init_gui E)) @ [setpoint r])\<rparr>"
    unfolding g'_def handle_line_parsed(1) [OF inv(1) assms(3)] using assms(2) by simp
  have fire: "sp_slider_var (timer_fires E i (step E (Advance dt) g')) = m
            \<and> \<not> user_adjusting_slider (timer_fires E i (step E (Advance dt) g'))"
    if "d \<le> clock g + dt" "int_round E (setpoint r) = Some m" for dt m
    unfolding g' using that id
    by (simp add: timer_fires_def tk_after_cancel_def revert_eq py_int_round_def)
  show ?thesis
    using fire id assms(2) unfolding g' by simp
qed

theorem reading_while_adjusting_witness:
  "user_adjusting_slider (run_events py [UserMove 60 ''60.0''] (init_gui py))
   \<and> line_outcome py ''RPM: 23.45 | SP: 50.0 | STATE: 0''
        (run_events py [UserMove 60 ''60.0''] (init_gui py))
       = Parsed \<lparr>rpm = Fin False 2345 2, setpoint = Fin False 500 1, stateCode = Some 0,
                 stateLabel = ''0''\<rparr>
   \<and> current_sp_value (handle_device_line py ''RPM: 23.45 | SP: 50.0 | STATE: 0''
        (run_events py [UserMove 60 ''60.0''] (init_gui py))) = PFloat (Fin False 500 1)
   \<and> sp_slider_var (handle_device_line py ''RPM: 23.45 | SP: 50.0 | STATE: 0''
        (run_events py [UserMove 60 ''60.0''] (init_gui py))) = 60
   \<and> sp_slider_var (timer_fires py 0 (step py (Advance 5000)
        (handle_device_line py ''RPM: 23.45 | SP: 50.0 | STATE: 0''
          (run_events py [UserMove 60 ''60.0''] (init_gui py))))) = 50"
proof -
  let ?g = "run_events py [UserMove 60 ''60.0''] (init_gui py)"
  have g: "?g = user_move py 60 ''60.0'' (init_gui py)" by (simp add: run_events_def)
  have f: "user_adjusting_slider ?g" "timers ?g = [(0, 5000)]" "sp_slider_var ?g = 60"
    "clock ?g = 0"
    unfolding g by (simp_all add: user_move_def on_slider_changed_eq init_gui_fields
      init_gui_def update_slider_label_eq)
  have h: "hist_rel ?g (accepted py [UserMove 60 ''60.0''] (init_gui py))"
    using reachable_inv [of py "[UserMove 60 ''60.0'']"] by simp
  note o = example_outcome(1) [OF h]
  have r: "int_round py (Fin False 500 1) = Some 50"
    by (simp add: py_fields dec_round_examples del: One_nat_def)
  show ?thesis
    using reading_while_adjusting [of ?g py "[UserMove 60 ''60.0'']"
            "''RPM: 23.45 | SP: 50.0 | STATE: 0''", OF refl f(1) o] f o r
    by auto
qed

end
